theory Spec2Isabelle
  imports Complex_Main "HOL-Library.Monad_Syntax"
begin

section \<open>Data model of the schematic scene\<close>

text \<open>
  Objects that the C++ code holds through pointers (\<^verbatim>\<open>Wire*\<close>,
  \<^verbatim>\<open>std::shared_ptr<Wire>\<close>, \<^verbatim>\<open>std::shared_ptr<WireNet>\<close>) are
  identified by natural numbers; the objects themselves live in two stores of the scene.
  A null pointer is \<open>None\<close>. Values of \<^verbatim>\<open>QPointF\<close> and \<^verbatim>\<open>QVector2D\<close> are
  pairs of reals, values of \<^verbatim>\<open>QPoint\<close> are pairs of integers.

  A wire point is a position with the junction flag; two wire points are equal when both
  agree. A wire has its origin \<open>w_pos\<close>, its points relative to the origin, the list
  behind \<^verbatim>\<open>connectedWires()\<close> and the back-reference behind \<^verbatim>\<open>net()\<close>. A net
  has its name, the list behind \<^verbatim>\<open>wires()\<close> (every call of \<^verbatim>\<open>wires()\<close> returns a
  copy, so a loop over it is not disturbed by changes of the net), the highlight, and the
  \<^verbatim>\<open>QObject\<close> flag set by \<^verbatim>\<open>blockSignals\<close>. A connector has its scene position and
  the members \<^verbatim>\<open>_wire\<close> and \<^verbatim>\<open>_wirePointIndex\<close>. The scene has the two stores, the
  list \<^verbatim>\<open>_nets\<close>, the next unused net identity, the connectors of all its nodes, the
  mode and \<^verbatim>\<open>_newWire\<close>. The graphics items, the undo stack and the item list
  \<^verbatim>\<open>_items\<close> are not part of the model.
\<close>

type_synonym pointF = "real \<times> real"
type_synonym point = "int \<times> int"
type_synonym vector2D = "real \<times> real"
type_synonym wire_id = nat
type_synonym net_id = nat

text \<open>
  Modelled from the spec: the classes \<^verbatim>\<open>WirePoint\<close>, \<^verbatim>\<open>Wire\<close>, \<^verbatim>\<open>WireNet\<close> and
  \<^verbatim>\<open>Node\<close> are not part of the sources. Their records hold what the data model of
  the spec lists for them and what the scene and the connector read: a wire point is ``a
  Point plus a boolean \<open>is_junction\<close>''; a wire is an ``ordered sequence of WirePoints
  \<dots> relative to the wire's own origin'', ``a set of directly-connected wires'' and the
  ``back-reference to their net''; a net is an ``ordered set of wires'' with ``a name
  (possibly empty)''.
\<close>

record WirePoint =
  wp_pos :: pointF
  wp_isJunction :: bool

record Wire =
  w_pos :: pointF
  w_points :: "WirePoint list"
  w_connectedWires :: "wire_id list"
  w_net :: "net_id option"

record WireNet =
  n_name :: string
  n_wires :: "wire_id list"
  n_highlighted :: bool
  n_signalsBlocked :: bool

record Connector =
  c_scenePos :: pointF
  c_wire :: "wire_id option"
  c_wirePointIndex :: int

datatype scene_mode = NormalMode | WireMode

datatype user_message = WireFloating

record Scene =
  s_wires :: "wire_id \<Rightarrow> Wire"
  s_netobjs :: "net_id \<Rightarrow> WireNet"
  s_nets :: "net_id list"
  s_nextNet :: net_id
  s_connectors :: "Connector list"
  s_mode :: scene_mode
  s_newWire :: "wire_id option"

subsection \<open>Qt containers and geometry\<close>

text \<open>\<^verbatim>\<open>QList::indexOf\<close>: the index of the first equal element, \<open>-1\<close> when there is none.\<close>

fun indexOf :: "'a list \<Rightarrow> 'a \<Rightarrow> int" where
  "indexOf [] x = -1"
| "indexOf (y # ys) x =
     (if y = x then 0 else (let r = indexOf ys x in if r < 0 then -1 else r + 1))"

text \<open>\<^verbatim>\<open>QList::at\<close>: reading outside the list is an assertion failure, here \<open>None\<close>.\<close>

definition at_index :: "'a list \<Rightarrow> int \<Rightarrow> 'a option" where
  "at_index xs i = (if 0 \<le> i \<and> i < int (length xs) then Some (xs ! nat i) else None)"

definition count :: "'a list \<Rightarrow> int" where
  "count xs = int (length xs)"

text \<open>
  Qt is not part of the sources. Its operations on points and vectors that the scene and
  the connector call are parameters of the functions below, collected in one record:
  \<^verbatim>\<open>operator+\<close>, \<^verbatim>\<open>operator-\<close> and \<^verbatim>\<open>operator==\<close> of \<^verbatim>\<open>QPointF\<close>,
  \<^verbatim>\<open>QPointF::toPoint\<close>, the conversion \<^verbatim>\<open>QVector2D(QPointF)\<close>, and the
  comparison \<^verbatim>\<open>QVector2D::length() < r\<close> of the length of a vector with a bound.
  Nothing is assumed about them: Qt computes in floating point, compares two
  \<^verbatim>\<open>QPointF\<close> with a tolerance, rounds through \<^verbatim>\<open>int\<close> and keeps the coordinates
  and the length of a \<^verbatim>\<open>QVector2D\<close> in single precision.
\<close>

record QtOps =
  qt_plus :: "pointF \<Rightarrow> pointF \<Rightarrow> pointF"
  qt_minus :: "pointF \<Rightarrow> pointF \<Rightarrow> pointF"
  qt_equal :: "pointF \<Rightarrow> pointF \<Rightarrow> bool"
  qt_toPoint :: "pointF \<Rightarrow> point"
  qt_toVector2D :: "pointF \<Rightarrow> vector2D"
  qt_length_less :: "vector2D \<Rightarrow> real \<Rightarrow> bool"

subsection \<open>Wire accessors\<close>

text \<open>
  Modelled from the spec: the class \<^verbatim>\<open>Wire\<close> (wire.cpp) is not part of the
  sources. \<open>wirePointsRelative\<close> is the ordered point list relative to the wire's origin;
  \<open>wirePointsAbsolute\<close> (also called \<open>pointsAbsolute\<close>) is the ``convenience view
  combining local points with wire origin''.
\<close>

definition padd :: "pointF \<Rightarrow> pointF \<Rightarrow> pointF" where
  "padd a b = (fst a + fst b, snd a + snd b)"

definition wirePointsRelative :: "Wire \<Rightarrow> WirePoint list" where
  "wirePointsRelative w = w_points w"

definition wirePointsAbsolute :: "Wire \<Rightarrow> WirePoint list" where
  "wirePointsAbsolute w = map (\<lambda>p. p\<lparr>wp_pos := padd (w_pos w) (wp_pos p)\<rparr>) (w_points w)"

text \<open>
  Modelled from the spec: \<^verbatim>\<open>Wire::movePointBy\<close>, ``repositions the i-th point'';
  ``all mutators fail soft (no-op) on out-of-range indices''.
\<close>

definition movePointBy :: "Wire \<Rightarrow> int \<Rightarrow> vector2D \<Rightarrow> Wire" where
  "movePointBy w i d =
     (if 0 \<le> i \<and> i < count (w_points w)
      then w\<lparr>w_points := (w_points w)[nat i := (w_points w ! nat i)
              \<lparr>wp_pos := padd (wp_pos (w_points w ! nat i)) d\<rparr>]\<rparr>
      else w)"

text \<open>
  Modelled from the spec: \<^verbatim>\<open>Wire::setPointIsJunction\<close> sets the per-point
  junction flag, a no-op on an out-of-range index.
\<close>

definition setPointIsJunction :: "Wire \<Rightarrow> int \<Rightarrow> bool \<Rightarrow> Wire" where
  "setPointIsJunction w i b =
     (if 0 \<le> i \<and> i < count (w_points w)
      then w\<lparr>w_points := (w_points w)[nat i := (w_points w ! nat i)\<lparr>wp_isJunction := b\<rparr>]\<rparr>
      else w)"

section \<open>Connector (connector.cpp)\<close>

datatype fault = OutOfRangeAccess

text \<open>
  \<^verbatim>\<open>Connector::moveWirePoint\<close>. The connector reads its own binding; the result is
  the wire store after the call. Reading the wire's point list outside its range is the
  fault \<open>OutOfRangeAccess\<close>. The displacement is computed by Qt's operations.
\<close>

definition moveWirePoint ::
  "QtOps \<Rightarrow> (wire_id \<Rightarrow> Wire) \<Rightarrow> Connector \<Rightarrow> fault + (wire_id \<Rightarrow> Wire)" where
  "moveWirePoint qt ws c =
     (case c_wire c of
        None \<Rightarrow> Inr ws
      | Some w \<Rightarrow>
          if c_wirePointIndex c < -1 \<or> count (wirePointsRelative (ws w)) < c_wirePointIndex c
          then Inr ws
          else (case at_index (wirePointsRelative (ws w)) (c_wirePointIndex c) of
                  None \<Rightarrow> Inl OutOfRangeAccess
                | Some oldPoint \<Rightarrow>
                    let oldPos = wp_pos oldPoint;
                        moveBy = qt_toVector2D qt
                                   (qt_minus qt (c_scenePos c) (qt_plus qt (w_pos (ws w)) oldPos))
                    in Inr (ws(w := movePointBy (ws w) (c_wirePointIndex c) moveBy))))"

text \<open>
  \<^verbatim>\<open>Connector::attachWire(wire, index)\<close>. The guard reads the member
  \<^verbatim>\<open>_wirePointIndex\<close>, not the parameter.
\<close>

definition attachWire :: "(wire_id \<Rightarrow> Wire) \<Rightarrow> Connector \<Rightarrow> wire_id option \<Rightarrow> int \<Rightarrow> Connector" where
  "attachWire ws c wire index =
     (case wire of
        None \<Rightarrow> c
      | Some w \<Rightarrow>
          if c_wirePointIndex c < -1 \<or> count (wirePointsRelative (ws w)) < c_wirePointIndex c
          then c
          else c\<lparr>c_wire := Some w, c_wirePointIndex := index\<rparr>)"

definition detachWire :: "Connector \<Rightarrow> Connector" where
  "detachWire c = c\<lparr>c_wire := None, c_wirePointIndex := -1\<rparr>"

definition attachedWire :: "Connector \<Rightarrow> wire_id option" where
  "attachedWire c = c_wire c"

text \<open>The state of a connector after its constructor.\<close>

definition new_Connector :: "pointF \<Rightarrow> Connector" where
  "new_Connector p = \<lparr>c_scenePos = p, c_wire = None, c_wirePointIndex = -1\<rparr>"

section \<open>Wire and WireNet operations used by the scene\<close>

text \<open>
  Modelled from the spec: \<^verbatim>\<open>Wire::connectWire\<close>, \<^verbatim>\<open>Wire::disconnectWire\<close>,
  \<^verbatim>\<open>Wire::junctions\<close> and \<^verbatim>\<open>Wire::removeLastPoint\<close> (wire.cpp) are not part of
  the sources. A wire keeps ``a set of directly-connected wires'': connecting adds the other
  wire to the receiver's set unless it is there, disconnecting removes it from the receiver's
  set. The junctions of a wire are its points carrying \<open>is_junction\<close>, in scene
  coordinates. Removing the last point of an empty point list is a no-op.
\<close>

definition Wire_connectWire :: "Wire \<Rightarrow> wire_id \<Rightarrow> Wire" where
  "Wire_connectWire w other =
     (if other \<in> set (w_connectedWires w) then w
      else w\<lparr>w_connectedWires := w_connectedWires w @ [other]\<rparr>)"

definition Wire_disconnectWire :: "Wire \<Rightarrow> wire_id \<Rightarrow> Wire" where
  "Wire_disconnectWire w other = w\<lparr>w_connectedWires := removeAll other (w_connectedWires w)\<rparr>"

definition junctions :: "Wire \<Rightarrow> WirePoint list" where
  "junctions w = filter wp_isJunction (wirePointsAbsolute w)"

definition removeLastPoint :: "Wire \<Rightarrow> Wire" where
  "removeLastPoint w = w\<lparr>w_points := butlast (w_points w)\<rparr>"

text \<open>
  Modelled from the spec: \<^verbatim>\<open>WireNet::addWire\<close>, \<^verbatim>\<open>WireNet::removeWire\<close> and
  \<^verbatim>\<open>WireNet::contains\<close> (wirenet.cpp) are not part of the sources. A net is an
  ordered collection of wires; adding a wire appends it and re-points the wire's
  back-reference to the net; removing a wire takes it out of the collection.
\<close>

definition WireNet_addWire :: "Scene \<Rightarrow> net_id \<Rightarrow> wire_id \<Rightarrow> Scene" where
  "WireNet_addWire s n w =
     s\<lparr>s_netobjs := (s_netobjs s)(n := (s_netobjs s n)\<lparr>n_wires := n_wires (s_netobjs s n) @ [w]\<rparr>),
       s_wires := (s_wires s)(w := (s_wires s w)\<lparr>w_net := Some n\<rparr>)\<rparr>"

definition WireNet_removeWire :: "Scene \<Rightarrow> net_id \<Rightarrow> wire_id \<Rightarrow> Scene" where
  "WireNet_removeWire s n w =
     s\<lparr>s_netobjs := (s_netobjs s)(n := (s_netobjs s n)\<lparr>n_wires := removeAll w (n_wires (s_netobjs s n))\<rparr>)\<rparr>"

definition WireNet_contains :: "Scene \<Rightarrow> net_id \<Rightarrow> wire_id \<Rightarrow> bool" where
  "WireNet_contains s n w = (w \<in> set (n_wires (s_netobjs s n)))"

text \<open>\<^verbatim>\<open>std::make_shared<WireNet>()\<close>: a fresh, empty, unnamed net object.\<close>

definition new_WireNet :: "Scene \<Rightarrow> net_id \<times> Scene" where
  "new_WireNet s =
     (s_nextNet s,
      s\<lparr>s_netobjs := (s_netobjs s)(s_nextNet s :=
            \<lparr>n_name = [], n_wires = [], n_highlighted = False, n_signalsBlocked = False\<rparr>),
        s_nextNet := Suc (s_nextNet s)\<rparr>)"

text \<open>A loop whose body may fail: the first failure ends the run.\<close>

fun foldM :: "('a \<Rightarrow> 's \<Rightarrow> 's option) \<Rightarrow> 'a list \<Rightarrow> 's \<Rightarrow> 's option" where
  "foldM f [] s = Some s"
| "foldM f (x # xs) s = (case f x s of None \<Rightarrow> None | Some s' \<Rightarrow> foldM f xs s')"

section \<open>Scene (scene.cpp)\<close>

text \<open>
  Scene functions that can dereference a null pointer or read a list out of range return
  an option; \<open>None\<close> is that failure.
\<close>

text \<open>\<^verbatim>\<open>Scene::wires\<close>: the wires of all nets, in the order of \<^verbatim>\<open>_nets\<close>.\<close>

definition wires :: "Scene \<Rightarrow> wire_id list" where
  "wires s = concat (map (\<lambda>wireNet. n_wires (s_netobjs s wireNet)) (s_nets s))"

text \<open>\<^verbatim>\<open>Scene::netFromWire\<close>: the first net of \<^verbatim>\<open>_nets\<close> that contains the wire, or null.\<close>

definition netFromWire :: "Scene \<Rightarrow> wire_id \<Rightarrow> net_id option" where
  "netFromWire s wire = find (\<lambda>otherNet. WireNet_contains s otherNet wire) (s_nets s)"

text \<open>
  \<^verbatim>\<open>Scene::addWireNet\<close> and \<^verbatim>\<open>Scene::removeWireNet\<close>, for a net that is not null: the
  net is appended to \<^verbatim>\<open>_nets\<close>, or all its occurrences are removed from it.
\<close>

definition addWireNet :: "Scene \<Rightarrow> net_id \<Rightarrow> Scene" where
  "addWireNet s wireNet = s\<lparr>s_nets := s_nets s @ [wireNet]\<rparr>"

definition removeWireNet :: "Scene \<Rightarrow> net_id \<Rightarrow> Scene" where
  "removeWireNet s net = s\<lparr>s_nets := removeAll net (s_nets s)\<rparr>"

text \<open>
  \<^verbatim>\<open>Scene::mergeNets\<close>. Both arguments may be null; the loop dereferences \<^verbatim>\<open>otherNet\<close>
  for its wires and \<^verbatim>\<open>net\<close> for every wire it moves.
\<close>

definition mergeNets :: "Scene \<Rightarrow> net_id option \<Rightarrow> net_id option \<Rightarrow> (Scene \<times> bool) option" where
  "mergeNets s net otherNet =
     (if net = otherNet then Some (s, False)
      else case otherNet of
        None \<Rightarrow> None
      | Some b \<Rightarrow>
         (case net of
            None \<Rightarrow> (if n_wires (s_netobjs s b) = [] then Some (s, True) else None)
          | Some a \<Rightarrow>
              Some (fold (\<lambda>wire s'. WireNet_removeWire (WireNet_addWire s' a wire) b wire)
                      (n_wires (s_netobjs s b)) s, True)))"

text \<open>
  \<^verbatim>\<open>Scene::connectWire(wire, rawWire)\<close>: \<^verbatim>\<open>wire->connectWire(rawWire.get())\<close>, then
  the nets of the two wires are merged and the emptied net is removed from the scene.
\<close>

definition connectWire :: "Scene \<Rightarrow> wire_id \<Rightarrow> wire_id \<Rightarrow> Scene option" where
  "connectWire s wire rawWire =
     (let s1 = s\<lparr>s_wires := (s_wires s)(wire := Wire_connectWire (s_wires s wire) rawWire)\<rparr>;
          net = netFromWire s1 wire;
          otherNet = netFromWire s1 rawWire
      in case mergeNets s1 net otherNet of
           None \<Rightarrow> None
         | Some (s2, merged) \<Rightarrow>
             if merged then (case otherNet of None \<Rightarrow> None | Some b \<Rightarrow> Some (removeWireNet s2 b))
             else Some s2)"

subsection \<open>wiresConnectedTo\<close>

text \<open>
  The test of the innermost loop of \<^verbatim>\<open>Scene::wiresConnectedTo\<close>: one of the two wires
  has the other in its connected wires.
\<close>

definition directly_connected :: "(wire_id \<Rightarrow> Wire) \<Rightarrow> wire_id \<Rightarrow> wire_id \<Rightarrow> bool" where
  "directly_connected ws wire2 otherWire =
     (otherWire \<in> set (w_connectedWires (ws wire2)) \<or> wire2 \<in> set (w_connectedWires (ws otherWire)))"

text \<open>One pass of the inner \<^verbatim>\<open>for\<close> loop over the wires of the net: the new list.\<close>

definition newList_of :: "(wire_id \<Rightarrow> Wire) \<Rightarrow> wire_id list \<Rightarrow> wire_id list \<Rightarrow> wire_id list" where
  "newList_of ws netWires connectedWires =
     filter (\<lambda>otherWire. otherWire \<notin> set connectedWires \<and>
                list_ex (\<lambda>wire2. directly_connected ws wire2 otherWire) connectedWires) netWires"

text \<open>
  The \<^verbatim>\<open>do ... while (not newList.isEmpty())\<close> loop. The last component counts the
  passes of the loop body; the source does not compute it.
\<close>

function wiresConnectedTo_loop ::
  "(wire_id \<Rightarrow> Wire) \<Rightarrow> wire_id list \<Rightarrow> wire_id list \<Rightarrow> nat \<Rightarrow> wire_id list \<times> nat" where
  "wiresConnectedTo_loop ws netWires connectedWires passes =
     (if newList_of ws netWires connectedWires = [] then (connectedWires, Suc passes)
      else wiresConnectedTo_loop ws netWires
             (connectedWires @ newList_of ws netWires connectedWires) (Suc passes))"
  by pat_completeness auto
termination
proof (relation "measure (\<lambda>(ws, netWires, connectedWires, passes).
                   card (set netWires - set connectedWires))")
  show "wf (measure (\<lambda>(ws, netWires, connectedWires, passes).
              card (set netWires - set connectedWires)))"
    by simp
next
  fix ws :: "wire_id \<Rightarrow> Wire" and netWires connectedWires :: "wire_id list" and passes :: nat
  assume ne: "newList_of ws netWires connectedWires \<noteq> []"
  then obtain x where x: "x \<in> set (newList_of ws netWires connectedWires)"
    by (cases "newList_of ws netWires connectedWires") auto
  have sub: "set (newList_of ws netWires connectedWires) \<subseteq> set netWires - set connectedWires"
    by (auto simp: newList_of_def)
  have "set netWires - set (connectedWires @ newList_of ws netWires connectedWires)
          \<subset> set netWires - set connectedWires"
    using x sub by auto
  then have "card (set netWires - set (connectedWires @ newList_of ws netWires connectedWires))
               < card (set netWires - set connectedWires)"
    by (intro psubset_card_mono) auto
  then show "((ws, netWires, connectedWires @ newList_of ws netWires connectedWires, Suc passes),
              (ws, netWires, connectedWires, passes))
             \<in> measure (\<lambda>(ws, netWires, connectedWires, passes).
                   card (set netWires - set connectedWires))"
    by simp
qed

declare wiresConnectedTo_loop.simps [simp del]

definition wiresConnectedTo_passes :: "Scene \<Rightarrow> wire_id \<Rightarrow> (wire_id list \<times> nat) option" where
  "wiresConnectedTo_passes s wire =
     (case w_net (s_wires s wire) of
        None \<Rightarrow> None
      | Some net \<Rightarrow> Some (wiresConnectedTo_loop (s_wires s) (n_wires (s_netobjs s net)) [wire] 0))"

definition wiresConnectedTo :: "Scene \<Rightarrow> wire_id \<Rightarrow> wire_id list option" where
  "wiresConnectedTo s wire = map_option fst (wiresConnectedTo_passes s wire)"

subsection \<open>disconnectWire and removeWire\<close>

text \<open>
  \<^verbatim>\<open>removeWire\<close> starts with \<^verbatim>\<open>removeItem(wire)\<close>, which acts on the item list and
  the graphics scene only; the model starts with the iteration over the connected wires.
  The three \<^verbatim>\<open>for\<close> statements of \<^verbatim>\<open>removeWire\<close> are folds over
  \<open>removeWire_disconnect\<close>, \<open>removeWire_fromNet\<close> and \<^verbatim>\<open>removeWireNet\<close>.
\<close>

text \<open>
  \<^verbatim>\<open>Scene::disconnectWire(wire, otherWire)\<close>: \<^verbatim>\<open>otherWire->disconnectWire(wire.get())\<close>;
  when the net of \<open>wire\<close> has another number of wires than \<open>wiresConnectedTo(otherWire)\<close>,
  the wires of that net outside the list move to a new net.
\<close>

definition disconnectWire :: "Scene \<Rightarrow> wire_id \<Rightarrow> wire_id \<Rightarrow> Scene option" where
  "disconnectWire s wire otherWire =
     (let s1 = s\<lparr>s_wires := (s_wires s)(otherWire := Wire_disconnectWire (s_wires s otherWire) wire)\<rparr>
      in case w_net (s_wires s1 wire) of
           None \<Rightarrow> None
         | Some net \<Rightarrow>
            (case wiresConnectedTo s1 otherWire of
               None \<Rightarrow> None
             | Some oldWires \<Rightarrow>
                 if count (n_wires (s_netobjs s1 net)) \<noteq> count oldWires
                 then (case new_WireNet s1 of (newNet, s2) \<Rightarrow>
                         Some (fold (\<lambda>wireToMove s'.
                                  if wireToMove \<in> set oldWires then s'
                                  else WireNet_removeWire (WireNet_addWire s' newNet wireToMove) net wireToMove)
                                (n_wires (s_netobjs s1 net)) (addWireNet s2 newNet)))
                 else Some s1))"

definition removeWire_disconnect :: "wire_id \<Rightarrow> wire_id \<Rightarrow> Scene \<Rightarrow> Scene option" where
  "removeWire_disconnect wire otherWire s =
     (if otherWire \<noteq> wire then
        (if wire \<in> set (w_connectedWires (s_wires s otherWire)) then disconnectWire s wire otherWire
         else if otherWire \<in> set (w_connectedWires (s_wires s wire)) then disconnectWire s otherWire wire
         else Some s)
      else Some s)"

definition removeWire_fromNet :: "wire_id \<Rightarrow> net_id \<Rightarrow> Scene \<times> net_id list \<Rightarrow> Scene \<times> net_id list" where
  "removeWire_fromNet wire net acc =
     (case acc of (s, netsToDelete) \<Rightarrow>
        let s' = (if WireNet_contains s net wire then WireNet_removeWire s net wire else s)
        in (s', if count (n_wires (s_netobjs s' net)) < 1 then netsToDelete @ [net] else netsToDelete))"

definition removeWire :: "Scene \<Rightarrow> wire_id \<Rightarrow> Scene option" where
  "removeWire s wire =
     (case wiresConnectedTo s wire of
        None \<Rightarrow> None
      | Some connectedList \<Rightarrow>
         (case foldM (removeWire_disconnect wire) connectedList s of
            None \<Rightarrow> None
          | Some s1 \<Rightarrow>
             (case fold (removeWire_fromNet wire) (s_nets s1) (s1, []) of
                (s2, netsToDelete) \<Rightarrow> Some (fold (\<lambda>net s'. removeWireNet s' net) netsToDelete s2))))"

subsection \<open>wirePointMovedByUser\<close>

text \<open>
  \<^verbatim>\<open>Wire::pointIsOnWire\<close> is not part of the sources. The scene functions that call it
  take it as the parameter \<open>pointIsOnWire\<close>; so does \<^verbatim>\<open>Wire::simplify\<close>. The
  connectors of all nodes are kept in one list, in the order of the nested iteration over
  \<^verbatim>\<open>nodes()\<close> and \<^verbatim>\<open>node->connectors()\<close>.
\<close>

type_synonym pointIsOnWire_fn = "Wire \<Rightarrow> pointF \<Rightarrow> bool"

text \<open>First pass, ``Detach from connector'', for one connector.\<close>

definition detachFromConnector ::
  "QtOps \<Rightarrow> wire_id \<Rightarrow> int \<Rightarrow> pointF \<Rightarrow> Connector \<Rightarrow> Connector" where
  "detachFromConnector qt rawWire index absPos connector =
     (case attachedWire connector of
        None \<Rightarrow> connector
      | Some attached \<Rightarrow>
          if attached \<noteq> rawWire then connector
          else if c_wirePointIndex connector = index
          then (if qt_toPoint qt (c_scenePos connector) \<noteq> qt_toPoint qt absPos
                then detachWire connector
                else connector)
          else connector)"

text \<open>Second pass, ``Attach to connector'', for one connector.\<close>

definition attachToConnector ::
  "QtOps \<Rightarrow> (wire_id \<Rightarrow> Wire) \<Rightarrow> wire_id \<Rightarrow> WirePoint \<Rightarrow> Connector \<Rightarrow> Connector" where
  "attachToConnector qt ws rawWire point connector =
     (if qt_toPoint qt (c_scenePos connector)
           = qt_toPoint qt (qt_plus qt (w_pos (ws rawWire)) (wp_pos point))
      then attachWire ws connector (Some rawWire) (indexOf (wirePointsRelative (ws rawWire)) point)
      else connector)"

text \<open>
  Third pass, ``Detach wires''. The inner loop over the junctions of the moved wire
  decides \<^verbatim>\<open>shouldDisconnect\<close>.
\<close>

fun shouldDisconnect :: "pointIsOnWire_fn \<Rightarrow> Wire \<Rightarrow> Wire \<Rightarrow> int \<Rightarrow> WirePoint list \<Rightarrow> bool" where
  "shouldDisconnect pointIsOnWire wire rawWire index [] = True"
| "shouldDisconnect pointIsOnWire wire rawWire index (point # rest) =
     (if indexOf (wirePointsAbsolute rawWire) point = index
      then shouldDisconnect pointIsOnWire wire rawWire index rest
      else if pointIsOnWire wire (wp_pos point) then False
      else shouldDisconnect pointIsOnWire wire rawWire index rest)"

definition detachWires_step ::
  "pointIsOnWire_fn \<Rightarrow> wire_id \<Rightarrow> int \<Rightarrow> wire_id \<Rightarrow> Scene \<Rightarrow> Scene option" where
  "detachWires_step pointIsOnWire rawWire index wire s =
     (if wire = rawWire then Some s
      else if rawWire \<in> set (w_connectedWires (s_wires s wire))
      then (case (if shouldDisconnect pointIsOnWire (s_wires s wire) (s_wires s rawWire) index
                        (junctions (s_wires s rawWire))
                  then disconnectWire s rawWire wire else Some s) of
              None \<Rightarrow> None
            | Some s1 \<Rightarrow>
                Some (s1\<lparr>s_wires := (s_wires s1)
                        (rawWire := setPointIsJunction (s_wires s1 rawWire) index False)\<rparr>))
      else Some s)"

definition detachWires ::
  "pointIsOnWire_fn \<Rightarrow> Scene \<Rightarrow> wire_id \<Rightarrow> int \<Rightarrow> WirePoint \<Rightarrow> Scene option" where
  "detachWires pointIsOnWire s rawWire index point =
     (if index = 0 \<or> index = count (wirePointsAbsolute (s_wires s rawWire)) - 1
      then (if wp_isJunction point
            then foldM (detachWires_step pointIsOnWire rawWire index) (wires s) s
            else Some s)
      else Some s)"

text \<open>Fourth pass, ``Attach point to wire if needed''.\<close>

definition attachPointToWire_step ::
  "pointIsOnWire_fn \<Rightarrow> wire_id \<Rightarrow> int \<Rightarrow> wire_id \<Rightarrow> Scene \<Rightarrow> Scene option" where
  "attachPointToWire_step pointIsOnWire rawWire index wire s =
     (if wire = rawWire then Some s
      else (case at_index (wirePointsAbsolute (s_wires s rawWire)) index of
              None \<Rightarrow> None
            | Some p \<Rightarrow>
                if pointIsOnWire (s_wires s wire) (wp_pos p)
                then (if wire \<notin> set (w_connectedWires (s_wires s rawWire))
                      then connectWire
                             (s\<lparr>s_wires := (s_wires s)
                                  (rawWire := setPointIsJunction (s_wires s rawWire) index True)\<rparr>)
                             wire rawWire
                      else Some s)
                else Some s))"

definition attachPointToWire :: "pointIsOnWire_fn \<Rightarrow> Scene \<Rightarrow> wire_id \<Rightarrow> int \<Rightarrow> Scene option" where
  "attachPointToWire pointIsOnWire s rawWire index =
     (if index = 0 \<or> index = count (wirePointsAbsolute (s_wires s rawWire)) - 1
      then foldM (attachPointToWire_step pointIsOnWire rawWire index) (wires s) s
      else Some s)"

text \<open>The two connector passes together, on the connector list.\<close>

definition wirePointMovedByUser_connectors ::
  "QtOps \<Rightarrow> Scene \<Rightarrow> wire_id \<Rightarrow> int \<Rightarrow> Connector list option" where
  "wirePointMovedByUser_connectors qt s rawWire index =
     (case at_index (wirePointsRelative (s_wires s rawWire)) index of
        None \<Rightarrow> None
      | Some point \<Rightarrow>
         (case at_index (wirePointsAbsolute (s_wires s rawWire)) index of
            None \<Rightarrow> None
          | Some absPoint \<Rightarrow>
              Some (map (attachToConnector qt (s_wires s) rawWire point)
                     (map (detachFromConnector qt rawWire index (wp_pos absPoint))
                        (s_connectors s)))))"

definition wirePointMovedByUser ::
  "QtOps \<Rightarrow> pointIsOnWire_fn \<Rightarrow> Scene \<Rightarrow> wire_id \<Rightarrow> int \<Rightarrow> Scene option" where
  "wirePointMovedByUser qt pointIsOnWire s rawWire index =
     (case at_index (wirePointsRelative (s_wires s rawWire)) index of
        None \<Rightarrow> None
      | Some point \<Rightarrow>
         (case wirePointMovedByUser_connectors qt s rawWire index of
            None \<Rightarrow> None
          | Some connectors \<Rightarrow>
             (case detachWires pointIsOnWire (s\<lparr>s_connectors := connectors\<rparr>) rawWire index point of
                None \<Rightarrow> None
              | Some s3 \<Rightarrow> attachPointToWire pointIsOnWire s3 rawWire index)))"

subsection \<open>mouseDoubleClickEvent\<close>

text \<open>
  Modelled from the spec: \<^verbatim>\<open>Node::connectionPointsAbsolute\<close> (node.cpp) is not part
  of the sources; the connection points of the scene are the scene positions of the
  connectors.
\<close>

definition connectionPoints :: "Scene \<Rightarrow> pointF list" where
  "connectionPoints s = map c_scenePos (s_connectors s)"

definition lastPoint :: "Wire \<Rightarrow> WirePoint option" where
  "lastPoint w = at_index (wirePointsAbsolute w) (count (wirePointsAbsolute w) - 1)"

definition firstPoint :: "Wire \<Rightarrow> WirePoint option" where
  "firstPoint w = at_index (wirePointsAbsolute w) 0"

definition finishWire_step ::
  "pointIsOnWire_fn \<Rightarrow> wire_id \<Rightarrow> wire_id \<Rightarrow> Scene \<times> bool \<Rightarrow> (Scene \<times> bool) option" where
  "finishWire_step pointIsOnWire newWire wire acc =
     (case acc of (s, wireIsFloating) \<Rightarrow>
        if wire = newWire then Some (s, wireIsFloating)
        else (case lastPoint (s_wires s newWire) of
                None \<Rightarrow> None
              | Some p \<Rightarrow>
                  if pointIsOnWire (s_wires s wire) (wp_pos p)
                  then (case connectWire s wire newWire of
                          None \<Rightarrow> None
                        | Some s1 \<Rightarrow>
                            Some (s1\<lparr>s_wires := (s_wires s1)
                                    (newWire := setPointIsJunction (s_wires s1 newWire)
                                       (count (wirePointsAbsolute (s_wires s1 newWire)) - 1) True)\<rparr>,
                                  False))
                  else Some (s, wireIsFloating)))"

definition mouseDoubleClickEvent ::
  "QtOps \<Rightarrow> pointIsOnWire_fn \<Rightarrow> (Wire \<Rightarrow> Wire) \<Rightarrow> Scene
     \<Rightarrow> (Scene \<times> user_message option) option" where
  "mouseDoubleClickEvent qt pointIsOnWire simplify s =
     (case s_mode s of
        NormalMode \<Rightarrow> Some (s, None)
      | WireMode \<Rightarrow>
         (case s_newWire s of
            None \<Rightarrow> Some (s, None)
          | Some newWire \<Rightarrow>
             if count (wirePointsRelative (s_wires s newWire)) > 1
             then (let s1 = s\<lparr>s_wires := (s_wires s)(newWire := removeLastPoint (s_wires s newWire))\<rparr>
                   in case lastPoint (s_wires s1 newWire) of
                        None \<Rightarrow> None
                      | Some p \<Rightarrow>
                         (case foldM (finishWire_step pointIsOnWire newWire) (wires s1)
                                 (s1, \<not> list_ex (\<lambda>connectionPoint.
                                                     qt_equal qt connectionPoint (wp_pos p))
                                          (connectionPoints s1)) of
                            None \<Rightarrow> None
                          | Some (s2, wireIsFloating) \<Rightarrow>
                              if wireIsFloating
                              then Some (s2\<lparr>s_wires := (s_wires s2)
                                             (newWire := removeLastPoint (s_wires s2 newWire))\<rparr>,
                                         Some WireFloating)
                              else Some (s2\<lparr>s_wires := (s_wires s2)
                                             (newWire := simplify (s_wires s2 newWire)),
                                            s_newWire := None\<rparr>, None)))
             else Some (s, None)))"

subsection \<open>from\_container: the passes after the items are restored\<close>

text \<open>``Attach the wires to the nodes'': the loop over the points of one wire, for one connector.\<close>

fun attachLoop ::
  "QtOps \<Rightarrow> (wire_id \<Rightarrow> Wire) \<Rightarrow> wire_id \<Rightarrow> WirePoint list \<Rightarrow> Connector \<Rightarrow> Connector" where
  "attachLoop qt ws wire [] connector = connector"
| "attachLoop qt ws wire (point # rest) connector =
     (if qt_length_less qt
           (qt_toVector2D qt (qt_minus qt (c_scenePos connector) (wp_pos point))) 1
      then attachWire ws connector (Some wire) (indexOf (wirePointsAbsolute (ws wire)) point)
      else attachLoop qt ws wire rest connector)"

definition attachWiresToNodes :: "QtOps \<Rightarrow> Scene \<Rightarrow> Scene" where
  "attachWiresToNodes qt s =
     s\<lparr>s_connectors :=
         fold (\<lambda>wire connectors.
                 map (attachLoop qt (s_wires s) wire (wirePointsAbsolute (s_wires s wire))) connectors)
           (wires s) (s_connectors s)\<rparr>"

text \<open>``Find junctions''.\<close>

definition findJunctions_end ::
  "pointIsOnWire_fn \<Rightarrow> wire_id \<Rightarrow> wire_id \<Rightarrow> bool \<Rightarrow> Scene \<Rightarrow> Scene option" where
  "findJunctions_end pointIsOnWire wire otherWire atLast s =
     (case (if atLast then lastPoint (s_wires s otherWire) else firstPoint (s_wires s otherWire)) of
        None \<Rightarrow> None
      | Some p \<Rightarrow>
          if pointIsOnWire (s_wires s wire) (wp_pos p)
          then (case connectWire s wire otherWire of
                  None \<Rightarrow> None
                | Some s1 \<Rightarrow>
                    Some (s1\<lparr>s_wires := (s_wires s1)
                            (otherWire := setPointIsJunction (s_wires s1 otherWire)
                               (if atLast then count (wirePointsAbsolute (s_wires s1 otherWire)) - 1 else 0)
                               True)\<rparr>))
          else Some s)"

definition findJunctions_inner :: "pointIsOnWire_fn \<Rightarrow> wire_id \<Rightarrow> wire_id \<Rightarrow> Scene \<Rightarrow> Scene option" where
  "findJunctions_inner pointIsOnWire wire otherWire s =
     (if wire = otherWire then Some s
      else (case findJunctions_end pointIsOnWire wire otherWire False s of
              None \<Rightarrow> None
            | Some s1 \<Rightarrow> findJunctions_end pointIsOnWire wire otherWire True s1))"

definition findJunctions :: "pointIsOnWire_fn \<Rightarrow> Scene \<Rightarrow> Scene option" where
  "findJunctions pointIsOnWire s =
     foldM (\<lambda>wire s'. foldM (findJunctions_inner pointIsOnWire wire) (wires s') s') (wires s) s"

definition from_container_passes :: "QtOps \<Rightarrow> pointIsOnWire_fn \<Rightarrow> Scene \<Rightarrow> Scene option" where
  "from_container_passes qt pointIsOnWire s = findJunctions pointIsOnWire (attachWiresToNodes qt s)"

subsection \<open>Highlighting nets by name\<close>

text \<open>
  \<^verbatim>\<open>QString::compare(a, b, Qt::CaseInsensitive) == 0\<close>, on strings of bytes: the
  letters A to Z are folded to lower case.
\<close>

definition toLower :: "char \<Rightarrow> char" where
  "toLower c =
     (case map_of (zip ''ABCDEFGHIJKLMNOPQRSTUVWXYZ'' ''abcdefghijklmnopqrstuvwxyz'') c of
        None \<Rightarrow> c
      | Some l \<Rightarrow> l)"

definition compare_CaseInsensitive_0 :: "string \<Rightarrow> string \<Rightarrow> bool" where
  "compare_CaseInsensitive_0 a b = (map toLower a = map toLower b)"

text \<open>\<^verbatim>\<open>Scene::nets(wireNet)\<close>: the nets of the scene that carry the name of \<open>wireNet\<close>.\<close>

definition nets_of :: "Scene \<Rightarrow> net_id \<Rightarrow> net_id list" where
  "nets_of s wireNet =
     filter (\<lambda>net. n_name (s_netobjs s net) \<noteq> [] \<and>
               compare_CaseInsensitive_0 (n_name (s_netobjs s net)) (n_name (s_netobjs s wireNet)))
       (s_nets s)"

definition blockSignals :: "Scene \<Rightarrow> net_id \<Rightarrow> bool \<Rightarrow> Scene" where
  "blockSignals s n b = s\<lparr>s_netobjs := (s_netobjs s)(n := (s_netobjs s n)\<lparr>n_signalsBlocked := b\<rparr>)\<rparr>"

text \<open>
  Modelled from the spec: \<^verbatim>\<open>WireNet::setHighlighted\<close> (wirenet.cpp) is not part of the
  sources. It records the highlight and emits \<^verbatim>\<open>highlightChanged\<close>, which
  \<^verbatim>\<open>Scene::addWireNet\<close> connects to \<^verbatim>\<open>Scene::wireNetHighlightChanged\<close>; an object
  whose signals are blocked emits nothing. The connected slot is the parameter \<open>slot\<close>.
\<close>

definition WireNet_setHighlighted ::
  "(Scene \<Rightarrow> net_id \<Rightarrow> bool \<Rightarrow> Scene option) \<Rightarrow> Scene \<Rightarrow> net_id \<Rightarrow> bool \<Rightarrow> Scene option" where
  "WireNet_setHighlighted slot s n highlighted =
     (let s1 = s\<lparr>s_netobjs := (s_netobjs s)(n := (s_netobjs s n)\<lparr>n_highlighted := highlighted\<rparr>)\<rparr>
      in if n_signalsBlocked (s_netobjs s1 n) then Some s1 else slot s1 n highlighted)"

text \<open>
  \<^verbatim>\<open>Scene::wireNetHighlightChanged\<close>, with the sender as an argument. The first
  argument bounds the nesting of the slot inside itself: \<open>None\<close> means that the slot was
  entered more deeply than the bound allows.
\<close>

definition wireNetHighlightChanged_step ::
  "(Scene \<Rightarrow> net_id \<Rightarrow> bool \<Rightarrow> Scene option) \<Rightarrow> net_id \<Rightarrow> bool \<Rightarrow> net_id \<Rightarrow> Scene \<Rightarrow> Scene option" where
  "wireNetHighlightChanged_step slot wireNet highlighted otherWireNet s =
     (if otherWireNet = wireNet then Some s
      else (case WireNet_setHighlighted slot (blockSignals s otherWireNet True) otherWireNet highlighted of
              None \<Rightarrow> None
            | Some s1 \<Rightarrow> Some (blockSignals s1 otherWireNet False)))"

primrec wireNetHighlightChanged :: "nat \<Rightarrow> Scene \<Rightarrow> net_id \<Rightarrow> bool \<Rightarrow> Scene option" where
  "wireNetHighlightChanged 0 s sender highlighted = None"
| "wireNetHighlightChanged (Suc depth) s sender highlighted =
     (if sender \<notin> set (s_nets s) then Some s
      else foldM (wireNetHighlightChanged_step (wireNetHighlightChanged depth) sender highlighted)
             (nets_of s sender) s)"

text \<open>A net is highlighted by the user: the call with the scene's slot connected.\<close>

definition setHighlighted :: "nat \<Rightarrow> Scene \<Rightarrow> net_id \<Rightarrow> bool \<Rightarrow> Scene option" where
  "setHighlighted depth s n highlighted =
     WireNet_setHighlighted (wireNetHighlightChanged depth) s n highlighted"

subsection \<open>Point on wire\<close>

text \<open>
  Modelled from the spec: \<^verbatim>\<open>Wire::pointIsOnWire\<close> and the point-on-segment test
  (wire.cpp, utils) are not part of the sources. ``The grid Euclidean distance from p to
  segment ab must be < 1''; a point is on a wire when it is on one of the segments of the
  wire's polyline in scene coordinates. The distance is that of the plane, compared through
  its square.
\<close>

definition psub :: "pointF \<Rightarrow> pointF \<Rightarrow> pointF" where
  "psub a b = (fst a - fst b, snd a - snd b)"

definition dot :: "pointF \<Rightarrow> pointF \<Rightarrow> real" where
  "dot a b = fst a * fst b + snd a * snd b"

definition distance_lt_1 :: "pointF \<Rightarrow> pointF \<Rightarrow> bool" where
  "distance_lt_1 p c = (dot (psub p c) (psub p c) < 1)"

definition point_on_segment :: "pointF \<Rightarrow> pointF \<Rightarrow> pointF \<Rightarrow> bool" where
  "point_on_segment a b p =
     (let ab = psub b a; ap = psub p a; l2 = dot ab ab;
          t = (if l2 = 0 then 0 else max 0 (min 1 (dot ap ab / l2)));
          c = padd a (t * fst ab, t * snd ab)
      in distance_lt_1 p c)"

fun point_on_polyline :: "pointF list \<Rightarrow> pointF \<Rightarrow> bool" where
  "point_on_polyline (a # b # rest) p =
     (point_on_segment a b p \<or> point_on_polyline (b # rest) p)"
| "point_on_polyline _ p = False"

definition pointIsOnWire_spec :: pointIsOnWire_fn where
  "pointIsOnWire_spec w p = point_on_polyline (map wp_pos (wirePointsAbsolute w)) p"

section \<open>Example scenes\<close>

definition wire_of :: "pointF list \<Rightarrow> wire_id list \<Rightarrow> net_id option \<Rightarrow> Wire" where
  "wire_of ps cs n =
     \<lparr>w_pos = (0, 0), w_points = map (\<lambda>p. \<lparr>wp_pos = p, wp_isJunction = False\<rparr>) ps,
      w_connectedWires = cs, w_net = n\<rparr>"

text \<open>
  The example scenes are evaluated with the operations of Qt computed exactly: sums and
  differences of reals, equality, rounding to the nearest integer with a half upwards, and
  the Euclidean length, compared with a bound through the squares. All coordinates of the
  example scenes are small integers, for which Qt's own operations give the same results.
\<close>

definition exact_qt :: QtOps where
  "exact_qt =
     \<lparr>qt_plus = padd, qt_minus = psub, qt_equal = (\<lambda>a b. a = b),
      qt_toPoint = (\<lambda>p. (\<lfloor>fst p + 1 / 2\<rfloor>, \<lfloor>snd p + 1 / 2\<rfloor>)),
      qt_toVector2D = (\<lambda>v. v),
      qt_length_less = (\<lambda>v r. 0 < r \<and> fst v * fst v + snd v * snd v < r * r)\<rparr>"

definition emptyNet :: WireNet where
  "emptyNet = \<lparr>n_name = [], n_wires = [], n_highlighted = False, n_signalsBlocked = False\<rparr>"

text \<open>Two wires, each alone in its net: wire 0 is horizontal, wire 1 starts on it.\<close>

definition two_nets :: Scene where
  "two_nets =
     \<lparr>s_wires = (\<lambda>_. wire_of [] [] None)
         (0 := wire_of [(0, 0), (100, 0)] [] (Some 0),
          1 := wire_of [(50, 0), (50, 100)] [] (Some 1)),
      s_netobjs = (\<lambda>_. emptyNet)(0 := emptyNet\<lparr>n_wires := [0]\<rparr>, 1 := emptyNet\<lparr>n_wires := [1]\<rparr>),
      s_nets = [0, 1], s_nextNet = 2, s_connectors = [], s_mode = NormalMode,
      s_newWire = None\<rparr>"

text \<open>One net of three wires in a chain: wire 1 starts on wire 0, wire 2 starts on wire 1.\<close>

definition chain_net :: Scene where
  "chain_net =
     \<lparr>s_wires = (\<lambda>_. wire_of [] [] None)
         (0 := wire_of [(0, 0), (100, 0)] [1] (Some 0),
          1 := wire_of [(50, 0), (50, 100)] [2] (Some 0),
          2 := wire_of [(50, 50), (80, 50)] [] (Some 0)),
      s_netobjs = (\<lambda>_. emptyNet)(0 := emptyNet\<lparr>n_wires := [0, 1, 2]\<rparr>),
      s_nets = [0], s_nextNet = 1, s_connectors = [], s_mode = NormalMode,
      s_newWire = None\<rparr>"

section \<open>Reachability between wires\<close>

text \<open>
  The connected-wires relation holds the pairs of a wire and a wire that it records in its
  connected set. Its symmetric closure adds the converse pairs; \<open>net_link\<close> is the
  symmetric closure with every step ending in a wire of the given net.
\<close>

definition connected_wires_rel :: "(wire_id \<Rightarrow> Wire) \<Rightarrow> (wire_id \<times> wire_id) set" where
  "connected_wires_rel ws = {(a, b). b \<in> set (w_connectedWires (ws a))}"

definition symmetric_link :: "(wire_id \<Rightarrow> Wire) \<Rightarrow> (wire_id \<times> wire_id) set" where
  "symmetric_link ws = connected_wires_rel ws \<union> (connected_wires_rel ws)\<inverse>"

definition net_link :: "(wire_id \<Rightarrow> Wire) \<Rightarrow> wire_id list \<Rightarrow> (wire_id \<times> wire_id) set" where
  "net_link ws netWires = {(a, b). (a, b) \<in> symmetric_link ws \<and> b \<in> set netWires}"

text \<open>
  Four nets: two carry the name VCC in different letter cases, one is unnamed, one is
  named GND.
\<close>

definition vcc_scene :: Scene where
  "vcc_scene =
     \<lparr>s_wires = (\<lambda>_. wire_of [] [] None),
      s_netobjs = (\<lambda>_. emptyNet)
         (0 := emptyNet\<lparr>n_name := ''VCC''\<rparr>, 1 := emptyNet\<lparr>n_name := ''vcc''\<rparr>,
          2 := emptyNet, 3 := emptyNet\<lparr>n_name := ''GND''\<rparr>),
      s_nets = [0, 1, 2, 3], s_nextNet = 4, s_connectors = [], s_mode = NormalMode,
      s_newWire = None\<rparr>"


text \<open>
  Two wires that both start at the origin, each alone in its net, and one connector of a
  node at the origin.
\<close>

definition shared_end :: Scene where
  "shared_end =
     \<lparr>s_wires = (\<lambda>_. wire_of [] [] None)
         (0 := wire_of [(0, 0), (100, 0)] [] (Some 0),
          1 := wire_of [(0, 0), (0, 100)] [] (Some 1)),
      s_netobjs = (\<lambda>_. emptyNet)(0 := emptyNet\<lparr>n_wires := [0]\<rparr>, 1 := emptyNet\<lparr>n_wires := [1]\<rparr>),
      s_nets = [0, 1], s_nextNet = 2, s_connectors = [new_Connector (0, 0)],
      s_mode = NormalMode, s_newWire = None\<rparr>"


text \<open>
  Scenario S3: a node at (0,0) with a connector at local (0,0), and a wire whose point 0
  is (0,0).
\<close>

definition s3_scene :: Scene where
  "s3_scene =
     \<lparr>s_wires = (\<lambda>_. wire_of [] [] None)(0 := wire_of [(0, 0), (100, 0)] [] (Some 0)),
      s_netobjs = (\<lambda>_. emptyNet)(0 := emptyNet\<lparr>n_wires := [0]\<rparr>),
      s_nets = [0], s_nextNet = 1, s_connectors = [new_Connector (padd (0, 0) (0, 0))],
      s_mode = NormalMode, s_newWire = None\<rparr>"


text \<open>
  Wire 1 starts where wire 0 ends, and a connector at that place is bound to point 0 of
  wire 1.
\<close>

definition rebind_scene :: Scene where
  "rebind_scene =
     \<lparr>s_wires = (\<lambda>_. wire_of [] [] None)
         (0 := wire_of [(0, 0), (100, 0)] [] (Some 0),
          1 := wire_of [(100, 0), (100, 50)] [] (Some 1)),
      s_netobjs = (\<lambda>_. emptyNet)(0 := emptyNet\<lparr>n_wires := [0]\<rparr>, 1 := emptyNet\<lparr>n_wires := [1]\<rparr>),
      s_nets = [0, 1], s_nextNet = 2,
      s_connectors = [\<lparr>c_scenePos = (100, 0), c_wire = Some 1, c_wirePointIndex = 0\<rparr>],
      s_mode = NormalMode, s_newWire = None\<rparr>"

text \<open>
  Scenario S4 in wire mode: the wire in progress has the points (0,0), (100,0) and the
  provisional point (120,0); another wire and an unbound connector lie elsewhere. The
  second scene is the first after the rejected double click.
\<close>

definition floating_scene :: Scene where
  "floating_scene =
     \<lparr>s_wires = (\<lambda>_. wire_of [] [] None)
         (0 := wire_of [(0, 0), (100, 0), (120, 0)] [] (Some 0),
          1 := wire_of [(0, 50), (100, 50)] [] (Some 1)),
      s_netobjs = (\<lambda>_. emptyNet)(0 := emptyNet\<lparr>n_wires := [0]\<rparr>, 1 := emptyNet\<lparr>n_wires := [1]\<rparr>),
      s_nets = [0, 1], s_nextNet = 2, s_connectors = [new_Connector (0, 50)],
      s_mode = WireMode, s_newWire = Some 0\<rparr>"

definition floating_after :: Scene where
  "floating_after =
     \<lparr>s_wires = (\<lambda>_. wire_of [] [] None)
         (0 := wire_of [(0, 0)] [] (Some 0),
          1 := wire_of [(0, 50), (100, 50)] [] (Some 1)),
      s_netobjs = (\<lambda>_. emptyNet)(0 := emptyNet\<lparr>n_wires := [0]\<rparr>, 1 := emptyNet\<lparr>n_wires := [1]\<rparr>),
      s_nets = [0, 1], s_nextNet = 2, s_connectors = [new_Connector (0, 50)],
      s_mode = WireMode, s_newWire = Some 0\<rparr>"


text \<open>
  Three wires of one net as they are restored from a container: wire 0 runs from (0,50)
  down to (0,0), right to (100,0) and up to (100,50). Wire 1 crosses the first end of wire 0
  and ends on wire 0 at (20,0); wire 2 starts on wire 0 at (80,0) and crosses its last end.
  Wires 1 and 2 do not touch. The second scene is the first after the junction pass of
  \<open>from_container\<close>, the third is the second after wire 0 is removed.
\<close>

definition mutual_loaded :: Scene where
  "mutual_loaded =
     \<lparr>s_wires = (\<lambda>_. wire_of [] [] None)
         (0 := wire_of [(0, 50), (0, 0), (100, 0), (100, 50)] [] (Some 0),
          1 := wire_of [(-20, 50), (20, 50), (20, 0)] [] (Some 0),
          2 := wire_of [(80, 0), (80, 50), (120, 50)] [] (Some 0)),
      s_netobjs = (\<lambda>_. emptyNet)(0 := emptyNet\<lparr>n_wires := [0, 1, 2]\<rparr>),
      s_nets = [0], s_nextNet = 1, s_connectors = [], s_mode = NormalMode,
      s_newWire = None\<rparr>"

definition junction_points :: "(pointF \<times> bool) list \<Rightarrow> WirePoint list" where
  "junction_points ps = map (\<lambda>(p, j). \<lparr>wp_pos = p, wp_isJunction = j\<rparr>) ps"

definition mutual_net :: Scene where
  "mutual_net =
     \<lparr>s_wires = (\<lambda>_. wire_of [] [] None)
         (0 := \<lparr>w_pos = (0, 0),
                w_points = junction_points
                  [((0, 50), True), ((0, 0), False), ((100, 0), False), ((100, 50), True)],
                w_connectedWires = [1, 2], w_net = Some 0\<rparr>,
          1 := \<lparr>w_pos = (0, 0),
                w_points = junction_points [((-20, 50), False), ((20, 50), False), ((20, 0), True)],
                w_connectedWires = [0], w_net = Some 0\<rparr>,
          2 := \<lparr>w_pos = (0, 0),
                w_points = junction_points [((80, 0), True), ((80, 50), False), ((120, 50), False)],
                w_connectedWires = [0], w_net = Some 0\<rparr>),
      s_netobjs = (\<lambda>_. emptyNet)(0 := emptyNet\<lparr>n_wires := [0, 1, 2]\<rparr>),
      s_nets = [0], s_nextNet = 1, s_connectors = [], s_mode = NormalMode,
      s_newWire = None\<rparr>"

definition mutual_after :: Scene where
  "mutual_after =
     \<lparr>s_wires = (\<lambda>_. wire_of [] [] None)
         (0 := \<lparr>w_pos = (0, 0),
                w_points = junction_points
                  [((0, 50), True), ((0, 0), False), ((100, 0), False), ((100, 50), True)],
                w_connectedWires = [1, 2], w_net = Some 0\<rparr>,
          1 := \<lparr>w_pos = (0, 0),
                w_points = junction_points [((-20, 50), False), ((20, 50), False), ((20, 0), True)],
                w_connectedWires = [], w_net = Some 0\<rparr>,
          2 := \<lparr>w_pos = (0, 0),
                w_points = junction_points [((80, 0), True), ((80, 50), False), ((120, 50), False)],
                w_connectedWires = [], w_net = Some 0\<rparr>),
      s_netobjs = (\<lambda>_. emptyNet)(0 := emptyNet\<lparr>n_wires := [1, 2]\<rparr>),
      s_nets = [0], s_nextNet = 1, s_connectors = [], s_mode = NormalMode,
      s_newWire = None\<rparr>"

text \<open>
  Two wires of one net as they are restored from a container: wire 0 runs from (0,0) to
  (10,0); wire 1 is a closed loop that starts and ends at (5,0) on wire 0 and crosses the
  end of wire 0 at (10,0). The second scene is the first after the junction pass of
  \<open>from_container\<close>, the third is the second after \<open>wirePointMovedByUser\<close> for point 0
  of wire 1.
\<close>

definition loop_loaded :: Scene where
  "loop_loaded =
     \<lparr>s_wires = (\<lambda>_. wire_of [] [] None)
         (0 := wire_of [(0, 0), (10, 0)] [] (Some 0),
          1 := wire_of [(5, 0), (10, -5), (10, 5), (5, 0)] [] (Some 0)),
      s_netobjs = (\<lambda>_. emptyNet)(0 := emptyNet\<lparr>n_wires := [0, 1]\<rparr>),
      s_nets = [0], s_nextNet = 1, s_connectors = [], s_mode = NormalMode,
      s_newWire = None\<rparr>"

definition loop_scene :: Scene where
  "loop_scene =
     \<lparr>s_wires = (\<lambda>_. wire_of [] [] None)
         (0 := \<lparr>w_pos = (0, 0),
                w_points = junction_points [((0, 0), False), ((10, 0), True)],
                w_connectedWires = [1], w_net = Some 0\<rparr>,
          1 := \<lparr>w_pos = (0, 0),
                w_points = junction_points
                  [((5, 0), True), ((10, -5), False), ((10, 5), False), ((5, 0), True)],
                w_connectedWires = [0], w_net = Some 0\<rparr>),
      s_netobjs = (\<lambda>_. emptyNet)(0 := emptyNet\<lparr>n_wires := [0, 1]\<rparr>),
      s_nets = [0], s_nextNet = 1, s_connectors = [], s_mode = NormalMode,
      s_newWire = None\<rparr>"

definition loop_after :: Scene where
  "loop_after =
     \<lparr>s_wires = (\<lambda>_. wire_of [] [] None)
         (0 := \<lparr>w_pos = (0, 0),
                w_points = junction_points [((0, 0), False), ((10, 0), True)],
                w_connectedWires = [], w_net = Some 0\<rparr>,
          1 := \<lparr>w_pos = (0, 0),
                w_points = junction_points
                  [((5, 0), False), ((10, -5), False), ((10, 5), False), ((5, 0), True)],
                w_connectedWires = [0], w_net = Some 0\<rparr>),
      s_netobjs = (\<lambda>_. emptyNet)(0 := emptyNet\<lparr>n_wires := [0, 1]\<rparr>),
      s_nets = [0], s_nextNet = 1, s_connectors = [], s_mode = NormalMode,
      s_newWire = None\<rparr>"

section \<open>Auxiliary notions for the statements\<close>



text \<open>
  A connector lies within one unit of a wire point, as Qt measures it: the length of the
  vector from the point to the connector is below 1. A connector is bound to a wire at the
  first of the wire's points that lie within one unit of it.
\<close>

definition near :: "QtOps \<Rightarrow> Connector \<Rightarrow> WirePoint \<Rightarrow> bool" where
  "near qt connector point =
     qt_length_less qt (qt_toVector2D qt (qt_minus qt (c_scenePos connector) (wp_pos point))) 1"

definition bound_to_first_near ::
  "QtOps \<Rightarrow> (wire_id \<Rightarrow> Wire) \<Rightarrow> Connector \<Rightarrow> wire_id \<Rightarrow> nat \<Rightarrow> bool" where
  "bound_to_first_near qt ws connector w i =
     (c_wire connector = Some w \<and> c_wirePointIndex connector = int i \<and>
      i < length (wirePointsAbsolute (ws w)) \<and>
      near qt connector (wirePointsAbsolute (ws w) ! i) \<and>
      (\<forall>j < i. \<not> near qt connector (wirePointsAbsolute (ws w) ! j)))"

text \<open>
  A connector is at the place of point \<open>index\<close> of the wire, as Qt rounds positions to
  \<^verbatim>\<open>QPoint\<close>. The first pass reads the place from the absolute points of the wire,
  the second pass adds the point to the origin of the wire.
\<close>

definition at_indexed_point :: "QtOps \<Rightarrow> Scene \<Rightarrow> wire_id \<Rightarrow> int \<Rightarrow> Connector \<Rightarrow> bool" where
  "at_indexed_point qt s rawWire index connector =
     (qt_toPoint qt (c_scenePos connector)
        = qt_toPoint qt (wp_pos (wirePointsAbsolute (s_wires s rawWire) ! nat index)))"

definition at_new_location :: "QtOps \<Rightarrow> Scene \<Rightarrow> wire_id \<Rightarrow> int \<Rightarrow> Connector \<Rightarrow> bool" where
  "at_new_location qt s rawWire index connector =
     (qt_toPoint qt (c_scenePos connector)
        = qt_toPoint qt (qt_plus qt (w_pos (s_wires s rawWire))
                           (wp_pos (w_points (s_wires s rawWire) ! nat index))))"

text \<open>
  The scene position of the last point of the wire in progress that remains when the
  provisional point is dropped.
\<close>

definition remaining_last :: "Scene \<Rightarrow> wire_id \<Rightarrow> pointF" where
  "remaining_last s newWire =
     padd (w_pos (s_wires s newWire))
       (wp_pos (w_points (s_wires s newWire) ! (length (w_points (s_wires s newWire)) - 2)))"

text \<open>
  Some junction point of the moved wire other than the point \<open>index\<close> lies on the given
  wire.
\<close>

definition other_junction_on :: "pointIsOnWire_fn \<Rightarrow> Scene \<Rightarrow> wire_id \<Rightarrow> int \<Rightarrow> wire_id \<Rightarrow> bool" where
  "other_junction_on pointIsOnWire s rawWire index wire =
     (\<exists>j < length (w_points (s_wires s rawWire)).
        j \<noteq> nat index \<and> wp_isJunction (w_points (s_wires s rawWire) ! j) \<and>
        pointIsOnWire (s_wires s wire)
          (padd (w_pos (s_wires s rawWire)) (wp_pos (w_points (s_wires s rawWire) ! j))))"

text \<open>
  The state of the third pass of \<open>wirePointMovedByUser\<close> after the wires \<open>visited\<close>,
  relative to the scene \<open>s\<close> at its start: positions and points are as in \<open>s\<close>, but for
  the junction flag of the moved point, and a visited wire that recorded the moved wire has
  dropped it exactly when no other junction point of the moved wire lies on it.
\<close>

definition detach_inv ::
  "pointIsOnWire_fn \<Rightarrow> Scene \<Rightarrow> wire_id \<Rightarrow> int \<Rightarrow> wire_id list \<Rightarrow> Scene \<Rightarrow> bool" where
  "detach_inv pointIsOnWire s W index visited t =
     ((\<forall>y. w_pos (s_wires t y) = w_pos (s_wires s y)) \<and>
      (\<forall>y. y \<noteq> W \<longrightarrow> w_points (s_wires t y) = w_points (s_wires s y)) \<and>
      (w_points (s_wires t W) = w_points (s_wires s W) \<or>
       w_points (s_wires t W) = w_points (setPointIsJunction (s_wires s W) index False)) \<and>
      (\<forall>X. X \<noteq> W \<longrightarrow>
         w_connectedWires (s_wires t X)
           = (if X \<in> set visited \<and> W \<in> set (w_connectedWires (s_wires s X)) \<and>
                 \<not> other_junction_on pointIsOnWire s W index X
              then removeAll W (w_connectedWires (s_wires s X))
              else w_connectedWires (s_wires s X))) \<and>
      ((\<exists>X \<in> set visited. X \<noteq> W \<and> W \<in> set (w_connectedWires (s_wires s X)))
         \<longrightarrow> w_points (s_wires t W) = w_points (setPointIsJunction (s_wires s W) index False)))"

section \<open>Connector: indices outside the point list\<close>

lemma moveWirePoint_guarded:
  "c_wire c = Some w \<Longrightarrow>
   c_wirePointIndex c < -1 \<or> count (w_points (ws w)) < c_wirePointIndex c \<Longrightarrow>
   moveWirePoint qt ws c = Inr ws"
  by (auto simp: moveWirePoint_def wirePointsRelative_def)

lemma moveWirePoint_unguarded:
  "c_wire c = Some w \<Longrightarrow>
   c_wirePointIndex c = -1 \<or> c_wirePointIndex c = count (w_points (ws w)) \<Longrightarrow>
   moveWirePoint qt ws c = Inl OutOfRangeAccess"
  by (auto simp: moveWirePoint_def wirePointsRelative_def at_index_def count_def)

lemma attachWire_unbound:
  "c_wirePointIndex c = -1 \<Longrightarrow>
   attachWire ws c (Some w) index = c\<lparr>c_wire := Some w, c_wirePointIndex := index\<rparr>"
  by (simp add: attachWire_def count_def)

text \<open>
  Claim C7. Every connector mutator taking a wire-point index should be a silent no-op on
  an out-of-range index. The guard of \<open>moveWirePoint\<close> does that below \<open>-1\<close> and above
  the point count, and not at these two values; \<open>attachWire\<close> on an unbound connector
  takes any index. The code is evaluated at two such indices: on a fresh connector
  \<open>attachWire\<close> with index 5 for a wire of two points installs the binding, because its
  guard reads the connector's previous index; and after \<open>attachWire\<close> with index 2 (the
  point count, which the guard of \<open>moveWirePoint\<close> lets through) \<open>moveWirePoint\<close>
  reads the point list out of range.
\<close>

theorem connector_index_out_of_range:
  "attachWire (\<lambda>_. wire_of [(0, 0), (100, 0)] [] None) (new_Connector (0, 0)) (Some 0) 5
     = \<lparr>c_scenePos = (0, 0), c_wire = Some 0, c_wirePointIndex = 5\<rparr> \<and>
   moveWirePoint qt (\<lambda>_. wire_of [(0, 0), (100, 0)] [] None)
      (attachWire (\<lambda>_. wire_of [(0, 0), (100, 0)] [] None) (new_Connector (0, 0)) (Some 0) 2)
     = Inl OutOfRangeAccess"
  by (simp add: attachWire_def moveWirePoint_def new_Connector_def wire_of_def count_def
        wirePointsRelative_def at_index_def)

section \<open>Merging nets\<close>

lemma fold_merge_nets:
  "s_nets (fold (\<lambda>wire s'. WireNet_removeWire (WireNet_addWire s' a wire) b wire) xs s) = s_nets s"
  by (induction xs arbitrary: s) (simp_all add: WireNet_removeWire_def WireNet_addWire_def)

lemma fold_merge_a:
  "a \<noteq> b \<Longrightarrow>
   n_wires (s_netobjs (fold (\<lambda>wire s'. WireNet_removeWire (WireNet_addWire s' a wire) b wire) xs s) a)
     = n_wires (s_netobjs s a) @ xs"
  by (induction xs arbitrary: s) (simp_all add: WireNet_removeWire_def WireNet_addWire_def)

lemma fold_merge_b:
  "a \<noteq> b \<Longrightarrow>
   n_wires (s_netobjs (fold (\<lambda>wire s'. WireNet_removeWire (WireNet_addWire s' a wire) b wire) xs s) b)
     = filter (\<lambda>w. w \<notin> set xs) (n_wires (s_netobjs s b))"
proof (induction xs arbitrary: s)
  case Nil
  then show ?case by simp
next
  case (Cons x xs)
  let ?s1 = "WireNet_removeWire (WireNet_addWire s a x) b x"
  have step: "n_wires (s_netobjs ?s1 b) = removeAll x (n_wires (s_netobjs s b))"
    using Cons.prems by (simp add: WireNet_removeWire_def WireNet_addWire_def)
  have "n_wires (s_netobjs (fold (\<lambda>wire s'. WireNet_removeWire (WireNet_addWire s' a wire) b wire) xs ?s1) b)
          = filter (\<lambda>w. w \<notin> set xs) (n_wires (s_netobjs ?s1 b))"
    by (rule Cons.IH [OF Cons.prems])
  then show ?case
    by (auto simp: step removeAll_filter_not_eq intro: filter_cong)
qed

lemma fold_merge_wnet:
  "w_net (s_wires (fold (\<lambda>wire s'. WireNet_removeWire (WireNet_addWire s' a wire) b wire) xs s) w)
     = (if w \<in> set xs then Some a else w_net (s_wires s w))"
  by (induction xs arbitrary: s) (simp_all add: WireNet_removeWire_def WireNet_addWire_def)

lemma netFromWire_wires_upd [simp]:
  "netFromWire (s\<lparr>s_wires := f\<rparr>) w = netFromWire s w"
  by (simp add: netFromWire_def WireNet_contains_def)

lemma mergeNets_same: "mergeNets s net net = Some (s, False)"
  by (simp add: mergeNets_def)

lemma mergeNets_diff:
  assumes "a \<noteq> b"
  shows "\<exists>s'. mergeNets s (Some a) (Some b) = Some (s', True) \<and>
           n_wires (s_netobjs s' a) = n_wires (s_netobjs s a) @ n_wires (s_netobjs s b) \<and>
           n_wires (s_netobjs s' b) = [] \<and>
           (\<forall>w \<in> set (n_wires (s_netobjs s b)). w_net (s_wires s' w) = Some a) \<and>
           s_nets s' = s_nets s"
  using assms
  by (simp add: mergeNets_def fold_merge_a fold_merge_b fold_merge_wnet fold_merge_nets)

text \<open>
  Claim C5. Merging a net with itself returns false and leaves the scene as it is. Merging
  net \<open>a\<close> with a different net \<open>b\<close> returns true, appends the wires of \<open>b\<close> to those
  of \<open>a\<close>, re-points their net membership to \<open>a\<close> and leaves \<open>b\<close> without wires; and
  \<open>connectWire\<close>, the caller of the merge, then takes \<open>b\<close> out of the scene's net list.
\<close>

theorem mergeNets_moves_and_discards:
  "mergeNets s (Some a) (Some a) = Some (s, False) \<and>
   (a \<noteq> b \<longrightarrow>
      (\<exists>s'. mergeNets s (Some a) (Some b) = Some (s', True) \<and>
            n_wires (s_netobjs s' a) = n_wires (s_netobjs s a) @ n_wires (s_netobjs s b) \<and>
            n_wires (s_netobjs s' b) = [] \<and>
            (\<forall>w \<in> set (n_wires (s_netobjs s b)). w_net (s_wires s' w) = Some a))) \<and>
   (netFromWire s wire = Some a \<and> netFromWire s rawWire = Some b \<and> a \<noteq> b \<longrightarrow>
      (\<exists>s''. connectWire s wire rawWire = Some s'' \<and>
             b \<notin> set (s_nets s'') \<and>
             n_wires (s_netobjs s'' a) = n_wires (s_netobjs s a) @ n_wires (s_netobjs s b) \<and>
             n_wires (s_netobjs s'' b) = []))"
proof (intro conjI impI)
  show "mergeNets s (Some a) (Some a) = Some (s, False)"
    by (rule mergeNets_same)
next
  assume "a \<noteq> b"
  from mergeNets_diff [OF this, of s]
  show "\<exists>s'. mergeNets s (Some a) (Some b) = Some (s', True) \<and>
            n_wires (s_netobjs s' a) = n_wires (s_netobjs s a) @ n_wires (s_netobjs s b) \<and>
            n_wires (s_netobjs s' b) = [] \<and>
            (\<forall>w \<in> set (n_wires (s_netobjs s b)). w_net (s_wires s' w) = Some a)"
    by blast
next
  assume h: "netFromWire s wire = Some a \<and> netFromWire s rawWire = Some b \<and> a \<noteq> b"
  let ?s1 = "s\<lparr>s_wires := (s_wires s)(wire := Wire_connectWire (s_wires s wire) rawWire)\<rparr>"
  from h have ab: "a \<noteq> b" by simp
  from mergeNets_diff [OF ab, of ?s1] obtain s' where
    m: "mergeNets ?s1 (Some a) (Some b) = Some (s', True)"
    and wa: "n_wires (s_netobjs s' a) = n_wires (s_netobjs ?s1 a) @ n_wires (s_netobjs ?s1 b)"
    and wb: "n_wires (s_netobjs s' b) = []"
    by blast
  have "connectWire s wire rawWire = Some (removeWireNet s' b)"
    using h m by (simp add: connectWire_def Let_def)
  moreover have "b \<notin> set (s_nets (removeWireNet s' b))"
    by (simp add: removeWireNet_def)
  moreover have "n_wires (s_netobjs (removeWireNet s' b) a)
                   = n_wires (s_netobjs s a) @ n_wires (s_netobjs s b)"
    using wa by (simp add: removeWireNet_def)
  moreover have "n_wires (s_netobjs (removeWireNet s' b) b) = []"
    using wb by (simp add: removeWireNet_def)
  ultimately show "\<exists>s''. connectWire s wire rawWire = Some s'' \<and>
             b \<notin> set (s_nets s'') \<and>
             n_wires (s_netobjs s'' a) = n_wires (s_netobjs s a) @ n_wires (s_netobjs s b) \<and>
             n_wires (s_netobjs s'' b) = []"
    by blast
qed

theorem mergeNets_moves_and_discards_witness:
  "netFromWire two_nets 0 = Some 0 \<and> netFromWire two_nets 1 = Some 1 \<and> (0::nat) \<noteq> 1 \<and>
   (\<exists>s'. mergeNets two_nets (Some 0) (Some 1) = Some (s', True) \<and>
         n_wires (s_netobjs s' 0) = [0, 1] \<and> n_wires (s_netobjs s' 1) = [] \<and>
         w_net (s_wires s' 1) = Some 0) \<and>
   (\<exists>s''. connectWire two_nets 0 1 = Some s'' \<and> s_nets s'' = [0] \<and> 1 \<notin> set (s_nets s'') \<and>
          n_wires (s_netobjs s'' 0) = [0, 1])"
proof -
  have h: "netFromWire two_nets 0 = Some 0 \<and> netFromWire two_nets 1 = Some 1 \<and> (0::nat) \<noteq> 1"
    by (simp add: netFromWire_def WireNet_contains_def two_nets_def emptyNet_def)
  have c: "\<exists>s''. connectWire two_nets 0 1 = Some s'' \<and> s_nets s'' = [0]"
    by (simp add: connectWire_def mergeNets_def netFromWire_def WireNet_contains_def two_nets_def
          emptyNet_def removeWireNet_def WireNet_addWire_def WireNet_removeWire_def Let_def)
  have w: "n_wires (s_netobjs two_nets 0) = [0]" "n_wires (s_netobjs two_nets 1) = [1]"
    by (simp_all add: two_nets_def emptyNet_def)
  from mergeNets_moves_and_discards [of two_nets 0 1 0 1] h c w show ?thesis
    by auto
qed

section \<open>wiresConnectedTo: result and number of passes\<close>

lemma newList_of_subset:
  "set (newList_of ws netWires connectedWires) \<subseteq> set netWires - set connectedWires"
  by (auto simp: newList_of_def)

lemma directly_connected_iff:
  "directly_connected ws a b \<longleftrightarrow> (a, b) \<in> symmetric_link ws"
  by (auto simp: directly_connected_def symmetric_link_def connected_wires_rel_def)

lemma newList_of_linked:
  "y \<in> set (newList_of ws netWires connectedWires) \<Longrightarrow>
   \<exists>x \<in> set connectedWires. (x, y) \<in> net_link ws netWires"
  by (auto simp: newList_of_def net_link_def list_ex_iff directly_connected_iff)

lemma newList_of_empty_closed:
  assumes "newList_of ws netWires connectedWires = []"
    and "x \<in> set connectedWires" and "(x, y) \<in> net_link ws netWires"
  shows "y \<in> set connectedWires"
proof (rule ccontr)
  assume "y \<notin> set connectedWires"
  with assms(2,3) have "y \<in> set (newList_of ws netWires connectedWires)"
    by (auto simp: newList_of_def net_link_def list_ex_iff directly_connected_iff)
  with assms(1) show False by simp
qed

lemma loop_stop:
  "newList_of ws netWires connectedWires = [] \<Longrightarrow>
   wiresConnectedTo_loop ws netWires connectedWires passes = (connectedWires, Suc passes)"
  by (rule trans [OF wiresConnectedTo_loop.simps]) simp

lemma loop_continue:
  "newList_of ws netWires connectedWires \<noteq> [] \<Longrightarrow>
   wiresConnectedTo_loop ws netWires connectedWires passes
     = wiresConnectedTo_loop ws netWires (connectedWires @ newList_of ws netWires connectedWires)
         (Suc passes)"
  by (rule trans [OF wiresConnectedTo_loop.simps]) simp

lemma loop_grows:
  "set connectedWires \<subseteq> set (fst (wiresConnectedTo_loop ws netWires connectedWires passes))"
proof (induction ws netWires connectedWires passes rule: wiresConnectedTo_loop.induct)
  case (1 ws netWires connectedWires passes)
  show ?case
  proof (cases "newList_of ws netWires connectedWires = []")
    case True
    then show ?thesis by (simp add: loop_stop)
  next
    case False
    from "1.IH" [OF False] show ?thesis
      unfolding loop_continue [OF False] by auto
  qed
qed

lemma loop_sound:
  "\<forall>x \<in> set connectedWires. (w, x) \<in> (net_link ws netWires)\<^sup>* \<Longrightarrow>
   \<forall>y \<in> set (fst (wiresConnectedTo_loop ws netWires connectedWires passes)).
      (w, y) \<in> (net_link ws netWires)\<^sup>*"
proof (induction ws netWires connectedWires passes rule: wiresConnectedTo_loop.induct)
  case (1 ws netWires connectedWires passes)
  show ?case
  proof (cases "newList_of ws netWires connectedWires = []")
    case True
    with "1.prems" show ?thesis by (simp add: loop_stop)
  next
    case False
    have "\<forall>x \<in> set (connectedWires @ newList_of ws netWires connectedWires).
            (w, x) \<in> (net_link ws netWires)\<^sup>*"
    proof
      fix x assume "x \<in> set (connectedWires @ newList_of ws netWires connectedWires)"
      then consider "x \<in> set connectedWires" | "x \<in> set (newList_of ws netWires connectedWires)"
        by auto
      then show "(w, x) \<in> (net_link ws netWires)\<^sup>*"
      proof cases
        case 1
        with "1.prems" show ?thesis by blast
      next
        case 2
        from newList_of_linked [OF 2] obtain z where
          "z \<in> set connectedWires" "(z, x) \<in> net_link ws netWires" by blast
        with "1.prems" show ?thesis by (blast intro: rtrancl_into_rtrancl)
      qed
    qed
    from "1.IH" [OF False this] show ?thesis
      unfolding loop_continue [OF False] .
  qed
qed

lemma loop_closed:
  "x \<in> set (fst (wiresConnectedTo_loop ws netWires connectedWires passes)) \<Longrightarrow>
   (x, y) \<in> net_link ws netWires \<Longrightarrow>
   y \<in> set (fst (wiresConnectedTo_loop ws netWires connectedWires passes))"
proof (induction ws netWires connectedWires passes rule: wiresConnectedTo_loop.induct)
  case (1 ws netWires connectedWires passes)
  show ?case
  proof (cases "newList_of ws netWires connectedWires = []")
    case True
    with "1.prems" show ?thesis
      by (auto simp: loop_stop dest: newList_of_empty_closed)
  next
    case False
    from "1.IH" [OF False] "1.prems" show ?thesis
      unfolding loop_continue [OF False] by blast
  qed
qed

lemma loop_complete:
  assumes "(w, y) \<in> (net_link ws netWires)\<^sup>*"
    and "w \<in> set (fst (wiresConnectedTo_loop ws netWires connectedWires passes))"
  shows "y \<in> set (fst (wiresConnectedTo_loop ws netWires connectedWires passes))"
  using assms by (induction rule: rtrancl_induct) (auto intro: loop_closed)

lemma loop_passes:
  "snd (wiresConnectedTo_loop ws netWires connectedWires passes)
     \<le> passes + card (set netWires - set connectedWires) + 1"
proof (induction ws netWires connectedWires passes rule: wiresConnectedTo_loop.induct)
  case (1 ws netWires connectedWires passes)
  show ?case
  proof (cases "newList_of ws netWires connectedWires = []")
    case True
    then show ?thesis by (simp add: loop_stop)
  next
    case False
    then obtain x where x: "x \<in> set (newList_of ws netWires connectedWires)"
      by (cases "newList_of ws netWires connectedWires") auto
    have "set netWires - set (connectedWires @ newList_of ws netWires connectedWires)
            \<subset> set netWires - set connectedWires"
      using x newList_of_subset [of ws netWires connectedWires] by auto
    then have "card (set netWires - set (connectedWires @ newList_of ws netWires connectedWires))
                 < card (set netWires - set connectedWires)"
      by (intro psubset_card_mono) auto
    with "1.IH" [OF False] show ?thesis
      unfolding loop_continue [OF False] by simp
  qed
qed

lemma loop_result_set:
  "set (fst (wiresConnectedTo_loop ws netWires [w] 0)) = {y. (w, y) \<in> (net_link ws netWires)\<^sup>*}"
proof (intro equalityI subsetI)
  fix y assume "y \<in> set (fst (wiresConnectedTo_loop ws netWires [w] 0))"
  moreover have "\<forall>x \<in> set [w]. (w, x) \<in> (net_link ws netWires)\<^sup>*" by simp
  ultimately show "y \<in> {y. (w, y) \<in> (net_link ws netWires)\<^sup>*}"
    using loop_sound [of "[w]" w ws netWires 0] by blast
next
  fix y assume "y \<in> {y. (w, y) \<in> (net_link ws netWires)\<^sup>*}"
  moreover have "w \<in> set (fst (wiresConnectedTo_loop ws netWires [w] 0))"
    using loop_grows [of "[w]" ws netWires 0] by simp
  ultimately show "y \<in> set (fst (wiresConnectedTo_loop ws netWires [w] 0))"
    by (auto intro: loop_complete)
qed

lemma net_link_reach_in_net:
  "(w, y) \<in> (net_link ws netWires)\<^sup>* \<Longrightarrow> y = w \<or> y \<in> set netWires"
  by (induction rule: rtrancl_induct) (auto simp: net_link_def)

lemma closed_net_reach:
  assumes closed: "\<forall>a b. a \<in> set netWires \<longrightarrow> (a, b) \<in> symmetric_link ws \<longrightarrow> b \<in> set netWires"
    and w: "w \<in> set netWires"
  shows "(w, y) \<in> (symmetric_link ws)\<^sup>* \<longleftrightarrow> (w, y) \<in> (net_link ws netWires)\<^sup>*"
proof
  assume "(w, y) \<in> (symmetric_link ws)\<^sup>*"
  then have "(w, y) \<in> (net_link ws netWires)\<^sup>* \<and> y \<in> set netWires"
  proof (induction rule: rtrancl_induct)
    case base
    with w show ?case by simp
  next
    case (step y z)
    from step.hyps(2) have dc: "(y, z) \<in> symmetric_link ws" .
    with closed step.IH have z: "z \<in> set netWires" by blast
    with dc have "(y, z) \<in> net_link ws netWires" by (simp add: net_link_def)
    with step.IH z show ?case by (blast intro: rtrancl_into_rtrancl)
  qed
  then show "(w, y) \<in> (net_link ws netWires)\<^sup>*" by simp
next
  assume "(w, y) \<in> (net_link ws netWires)\<^sup>*"
  moreover have "net_link ws netWires \<subseteq> symmetric_link ws"
    by (auto simp: net_link_def)
  ultimately show "(w, y) \<in> (symmetric_link ws)\<^sup>*"
    using rtrancl_mono by blast
qed

text \<open>
  Claim C10, as amended. For a wire \<open>w\<close> that belongs to a net, \<open>wiresConnectedTo\<close>
  returns (the loop is a total function): the list holds \<open>w\<close> and exactly the wires of
  the net that are reachable from \<open>w\<close> by steps of the symmetric closure of the
  connected-wires relation that stay among the wires of the net; when no step of the
  symmetric closure leads from a wire of the net out of the net, these are all the wires
  reachable from \<open>w\<close> in the symmetric closure. Every pass adds only wires of the net that
  are not yet collected, and the number of passes is at most the net's wire count.
\<close>

theorem wiresConnectedTo_reachable:
  assumes net: "w_net (s_wires s w) = Some net"
    and inNet: "w \<in> set (n_wires (s_netobjs s net))"
  shows "\<exists>connectedWires passes.
           wiresConnectedTo_passes s w = Some (connectedWires, passes) \<and>
           wiresConnectedTo s w = Some connectedWires \<and>
           w \<in> set connectedWires \<and>
           set connectedWires
             = {w} \<union> {y \<in> set (n_wires (s_netobjs s net)).
                        (w, y) \<in> (net_link (s_wires s) (n_wires (s_netobjs s net)))\<^sup>*} \<and>
           ((\<forall>a b. a \<in> set (n_wires (s_netobjs s net)) \<longrightarrow> (a, b) \<in> symmetric_link (s_wires s)
                    \<longrightarrow> b \<in> set (n_wires (s_netobjs s net)))
             \<longrightarrow> set connectedWires = {y. (w, y) \<in> (symmetric_link (s_wires s))\<^sup>*}) \<and>
           (\<forall>collected. set (newList_of (s_wires s) (n_wires (s_netobjs s net)) collected)
              \<subseteq> set (n_wires (s_netobjs s net)) - set collected) \<and>
           passes \<le> length (n_wires (s_netobjs s net))"
proof -
  let ?nw = "n_wires (s_netobjs s net)"
  let ?r = "wiresConnectedTo_loop (s_wires s) ?nw [w] 0"
  have p: "wiresConnectedTo_passes s w = Some (fst ?r, snd ?r)"
    using net by (simp add: wiresConnectedTo_passes_def)
  then have c: "wiresConnectedTo s w = Some (fst ?r)"
    by (simp add: wiresConnectedTo_def)
  have setr: "set (fst ?r) = {y. (w, y) \<in> (net_link (s_wires s) ?nw)\<^sup>*}"
    by (rule loop_result_set)
  have mem: "w \<in> set (fst ?r)"
    by (simp add: setr)
  have eq1: "set (fst ?r) = {w} \<union> {y \<in> set ?nw. (w, y) \<in> (net_link (s_wires s) ?nw)\<^sup>*}"
    using setr net_link_reach_in_net [of w _ "s_wires s" ?nw] by auto
  have eq2: "(\<forall>a b. a \<in> set ?nw \<longrightarrow> (a, b) \<in> symmetric_link (s_wires s) \<longrightarrow> b \<in> set ?nw)
               \<longrightarrow> set (fst ?r) = {y. (w, y) \<in> (symmetric_link (s_wires s))\<^sup>*}"
    using setr closed_net_reach [of ?nw "s_wires s" w, OF _ inNet] by auto
  have "card (set ?nw - set [w]) < card (set ?nw)"
    using inNet by (intro psubset_card_mono) auto
  moreover have "card (set ?nw) \<le> length ?nw"
    by (rule card_length)
  ultimately have ps: "snd ?r \<le> length ?nw"
    using loop_passes [of "s_wires s" ?nw "[w]" 0] by simp
  have each: "\<forall>collected. set (newList_of (s_wires s) ?nw collected) \<subseteq> set ?nw - set collected"
    by (simp add: newList_of_subset)
  from p c mem eq1 eq2 each ps show ?thesis by blast
qed

lemma chain_eval: "wiresConnectedTo_passes chain_net 1 = Some ([1, 0, 2], 2)"
  by (simp add: wiresConnectedTo_passes_def chain_net_def wire_of_def emptyNet_def
        wiresConnectedTo_loop.simps newList_of_def directly_connected_def)

lemma chain_closed: "\<forall>a b. a \<in> set (n_wires (s_netobjs chain_net 0)) \<longrightarrow>
          (a, b) \<in> symmetric_link (s_wires chain_net) \<longrightarrow> b \<in> set (n_wires (s_netobjs chain_net 0))"
  by (auto simp: chain_net_def wire_of_def emptyNet_def symmetric_link_def connected_wires_rel_def
        split: if_splits)

theorem wiresConnectedTo_reachable_witness:
  "w_net (s_wires chain_net 1) = Some 0 \<and> 1 \<in> set (n_wires (s_netobjs chain_net 0)) \<and>
   wiresConnectedTo chain_net 1 = Some [1, 0, 2] \<and>
   {y. (1, y) \<in> (symmetric_link (s_wires chain_net))\<^sup>*} = {0, 1, 2} \<and>
   (2::nat) \<le> length (n_wires (s_netobjs chain_net 0))"
proof -
  have n: "w_net (s_wires chain_net 1) = Some 0"
    by (simp add: chain_net_def wire_of_def)
  have i: "1 \<in> set (n_wires (s_netobjs chain_net 0))"
    by (simp add: chain_net_def emptyNet_def)
  have l: "length (n_wires (s_netobjs chain_net 0)) = 3"
    by (simp add: chain_net_def emptyNet_def)
  from wiresConnectedTo_reachable [OF n i] chain_eval chain_closed n i l
  show ?thesis
    by (auto simp: wiresConnectedTo_def)
qed

section \<open>Highlighting by name\<close>








lemma vcc_eval:
  "map_option (\<lambda>s. map (\<lambda>m. n_highlighted (s_netobjs s m)) (s_nets s))
     (setHighlighted (Suc 0) vcc_scene 0 True) = Some [True, True, False, False]"
  by (simp add: setHighlighted_def WireNet_setHighlighted_def vcc_scene_def emptyNet_def Let_def
        nets_of_def compare_CaseInsensitive_0_def toLower_def wireNetHighlightChanged_step_def
        blockSignals_def)


section \<open>Binding connectors after loading\<close>

lemma attachWire_scenePos [simp]: "c_scenePos (attachWire ws c wire index) = c_scenePos c"
  by (simp add: attachWire_def split: option.splits)

lemma attachLoop_find:
  "attachLoop qt ws w ps c =
     (case find (near qt c) ps of
        None \<Rightarrow> c
      | Some p \<Rightarrow> attachWire ws c (Some w) (indexOf (wirePointsAbsolute (ws w)) p))"
  by (induction ps) (simp_all add: near_def)

lemma indexOf_find:
  "find P xs = Some p \<Longrightarrow>
   \<exists>i. indexOf xs p = int i \<and> i < length xs \<and> xs ! i = p \<and> P p \<and> (\<forall>j < i. \<not> P (xs ! j))"
proof (induction xs)
  case Nil
  then show ?case by simp
next
  case (Cons x xs)
  show ?case
  proof (cases "P x")
    case True
    with Cons.prems have "x = p" by simp
    with True show ?thesis by (intro exI [of _ 0]) simp
  next
    case False
    with Cons.prems have f: "find P xs = Some p" by simp
    from Cons.IH [OF f] obtain i where
      i: "indexOf xs p = int i" "i < length xs" "xs ! i = p" "P p" "\<forall>j < i. \<not> P (xs ! j)"
      by blast
    from False i(4) have ne: "x \<noteq> p" by blast
    have "indexOf (x # xs) p = int (Suc i)"
      using ne i(1) by (simp add: Let_def)
    moreover have "\<forall>j < Suc i. \<not> P ((x # xs) ! j)"
      using False i(5) by (auto simp: less_Suc_eq_0_disj)
    ultimately show ?thesis
      using i by (intro exI [of _ "Suc i"]) simp
  qed
qed

lemma find_None_no_near:
  "find (near qt c) ps = None \<longleftrightarrow> (\<forall>p \<in> set ps. \<not> near qt c p)"
  by (auto simp: find_None_iff)

lemma attachLoop_no_near:
  "\<forall>p \<in> set (wirePointsAbsolute (ws w)). \<not> near qt c p \<Longrightarrow>
   attachLoop qt ws w (wirePointsAbsolute (ws w)) c = c"
  by (simp add: attachLoop_find find_None_no_near [THEN iffD2])

lemma attachLoop_near:
  assumes "\<exists>p \<in> set (wirePointsAbsolute (ws w)). near qt c p"
  shows "\<exists>i. i < length (wirePointsAbsolute (ws w)) \<and>
             near qt c (wirePointsAbsolute (ws w) ! i) \<and>
             (\<forall>j < i. \<not> near qt c (wirePointsAbsolute (ws w) ! j)) \<and>
             attachLoop qt ws w (wirePointsAbsolute (ws w)) c = attachWire ws c (Some w) (int i)"
proof -
  from assms obtain p where f: "find (near qt c) (wirePointsAbsolute (ws w)) = Some p"
    by (cases "find (near qt c) (wirePointsAbsolute (ws w))") (auto simp: find_None_iff)
  from indexOf_find [OF f] obtain i where
    i: "indexOf (wirePointsAbsolute (ws w)) p = int i" "i < length (wirePointsAbsolute (ws w))"
       "wirePointsAbsolute (ws w) ! i = p" "near qt c p"
       "\<forall>j < i. \<not> near qt c (wirePointsAbsolute (ws w) ! j)"
    by blast
  then show ?thesis
    by (intro exI [of _ i]) (simp add: attachLoop_find f)
qed

lemma attachLoop_scenePos [simp]: "c_scenePos (attachLoop qt ws w ps c) = c_scenePos c"
  by (simp add: attachLoop_find split: option.splits)

lemma fold_attachLoop_scenePos:
  "c_scenePos (fold (\<lambda>wire. attachLoop qt ws wire (wirePointsAbsolute (ws wire))) wl c) = c_scenePos c"
  by (induction wl arbitrary: c) simp_all

lemma step_unbound:
  assumes fresh: "c_wire c = None" "c_wirePointIndex c = -1"
    and nr: "\<exists>p \<in> set (wirePointsAbsolute (ws w)). near qt c p"
  shows "\<exists>i. bound_to_first_near qt ws (attachLoop qt ws w (wirePointsAbsolute (ws w)) c) w i"
proof -
  from attachLoop_near [of ws w qt c, OF nr] obtain i where
    i: "i < length (wirePointsAbsolute (ws w))" "near qt c (wirePointsAbsolute (ws w) ! i)"
       "\<forall>j < i. \<not> near qt c (wirePointsAbsolute (ws w) ! j)"
       "attachLoop qt ws w (wirePointsAbsolute (ws w)) c = attachWire ws c (Some w) (int i)"
    by blast
  have "attachWire ws c (Some w) (int i) = c\<lparr>c_wire := Some w, c_wirePointIndex := int i\<rparr>"
    using fresh by (simp add: attachWire_def count_def)
  with i show ?thesis
    by (intro exI [of _ i]) (simp add: bound_to_first_near_def near_def)
qed

lemma step_bound:
  assumes b: "bound_to_first_near qt ws c w0 i0"
  shows "\<exists>w' i. w' \<in> {w0, w} \<and>
           bound_to_first_near qt ws (attachLoop qt ws w (wirePointsAbsolute (ws w)) c) w' i"
proof (cases "\<exists>p \<in> set (wirePointsAbsolute (ws w)). near qt c p")
  case False
  then have "attachLoop qt ws w (wirePointsAbsolute (ws w)) c = c"
    by (intro attachLoop_no_near) blast
  with b show ?thesis by auto
next
  case True
  from attachLoop_near [of ws w qt c, OF True] obtain i where
    i: "i < length (wirePointsAbsolute (ws w))" "near qt c (wirePointsAbsolute (ws w) ! i)"
       "\<forall>j < i. \<not> near qt c (wirePointsAbsolute (ws w) ! j)"
       "attachLoop qt ws w (wirePointsAbsolute (ws w)) c = attachWire ws c (Some w) (int i)"
    by blast
  have "attachWire ws c (Some w) (int i) = c \<or>
        attachWire ws c (Some w) (int i) = c\<lparr>c_wire := Some w, c_wirePointIndex := int i\<rparr>"
    by (simp add: attachWire_def)
  then show ?thesis
  proof
    assume "attachWire ws c (Some w) (int i) = c"
    with i(4) b show ?thesis by auto
  next
    assume "attachWire ws c (Some w) (int i) = c\<lparr>c_wire := Some w, c_wirePointIndex := int i\<rparr>"
    with i have "bound_to_first_near qt ws (attachLoop qt ws w (wirePointsAbsolute (ws w)) c) w i"
      by (simp add: bound_to_first_near_def near_def)
    then show ?thesis by auto
  qed
qed

lemma fold_bound:
  "bound_to_first_near qt ws c w0 i0 \<Longrightarrow>
   \<exists>w' i. w' \<in> insert w0 (set wl) \<and>
      bound_to_first_near qt ws
        (fold (\<lambda>wire. attachLoop qt ws wire (wirePointsAbsolute (ws wire))) wl c) w' i"
proof (induction wl arbitrary: c w0 i0)
  case Nil
  then show ?case by auto
next
  case (Cons w wl)
  from step_bound [of qt ws c w0 i0 w, OF Cons.prems] obtain w1 i1 where
    s: "w1 \<in> {w0, w}" "bound_to_first_near qt ws (attachLoop qt ws w (wirePointsAbsolute (ws w)) c) w1 i1"
    by blast
  from Cons.IH [OF s(2)] obtain w' i where
    "w' \<in> insert w1 (set wl)"
    "bound_to_first_near qt ws
       (fold (\<lambda>wire. attachLoop qt ws wire (wirePointsAbsolute (ws wire))) wl
          (attachLoop qt ws w (wirePointsAbsolute (ws w)) c)) w' i"
    by blast
  with s(1) show ?case by (intro exI [of _ w'] exI [of _ i]) auto
qed

lemma fold_unbound:
  assumes fresh: "c_wire c = None" "c_wirePointIndex c = -1"
    and nr: "\<exists>w \<in> set wl. \<exists>p \<in> set (wirePointsAbsolute (ws w)). near qt c p"
  shows "\<exists>w' i. w' \<in> set wl \<and>
      (\<exists>p \<in> set (wirePointsAbsolute (ws w')). near qt c p) \<and>
      bound_to_first_near qt ws
        (fold (\<lambda>wire. attachLoop qt ws wire (wirePointsAbsolute (ws wire))) wl c) w' i"
  using nr
proof (induction wl)
  case Nil
  then show ?case by simp
next
  case (Cons w wl)
  let ?F = "\<lambda>wire. attachLoop qt ws wire (wirePointsAbsolute (ws wire))"
  show ?case
  proof (cases "\<exists>p \<in> set (wirePointsAbsolute (ws w)). near qt c p")
    case True
    from step_unbound [of c ws w qt, OF fresh True] obtain i1 where
      b: "bound_to_first_near qt ws (?F w c) w i1" by blast
    from fold_bound [OF b, of wl] obtain w' i where
      r: "w' \<in> insert w (set wl)" "bound_to_first_near qt ws (fold ?F wl (?F w c)) w' i"
      by blast
    have sp: "c_scenePos (fold ?F wl (?F w c)) = c_scenePos c"
      by (simp add: fold_attachLoop_scenePos)
    from r(2) have "near qt c (wirePointsAbsolute (ws w') ! i)" "i < length (wirePointsAbsolute (ws w'))"
      using sp by (simp_all add: bound_to_first_near_def near_def)
    then have "\<exists>p \<in> set (wirePointsAbsolute (ws w')). near qt c p"
      using nth_mem by blast
    with r show ?thesis by (intro exI [of _ w'] exI [of _ i]) auto
  next
    case False
    then have same: "?F w c = c"
      by (intro attachLoop_no_near) blast
    from False Cons.prems have "\<exists>w \<in> set wl. \<exists>p \<in> set (wirePointsAbsolute (ws w)). near qt c p"
      by auto
    from Cons.IH [OF this] same show ?thesis by auto
  qed
qed

lemma fold_map_nth:
  "k < length cs \<Longrightarrow>
   fold (\<lambda>wire connectors. map (F wire) connectors) wl cs ! k = fold F wl (cs ! k)"
  by (induction wl arbitrary: cs) simp_all

lemma foldM_invariant:
  assumes "foldM f xs s = Some s'" and "P s"
    and "\<And>x t t'. f x t = Some t' \<Longrightarrow> P t \<Longrightarrow> P t'"
  shows "P s'"
  using assms(1,2)
proof (induction xs arbitrary: s)
  case Nil
  then show ?case by simp
next
  case (Cons x xs)
  from Cons.prems(1) obtain t where t: "f x s = Some t" "foldM f xs t = Some s'"
    by (auto split: option.splits)
  from assms(3) [OF t(1) Cons.prems(2)] have "P t" .
  from Cons.IH [OF t(2) this] show ?case .
qed

lemma fold_merge_connectors:
  "s_connectors (fold (\<lambda>wire s'. WireNet_removeWire (WireNet_addWire s' a wire) b wire) xs s)
     = s_connectors s"
  by (induction xs arbitrary: s) (simp_all add: WireNet_removeWire_def WireNet_addWire_def)

lemma mergeNets_connectors:
  "mergeNets s net otherNet = Some (s', r) \<Longrightarrow> s_connectors s' = s_connectors s"
  by (auto simp: mergeNets_def fold_merge_connectors split: if_splits option.splits)

lemma connectWire_connectors:
  "connectWire s wire rawWire = Some s' \<Longrightarrow> s_connectors s' = s_connectors s"
  by (auto simp: connectWire_def Let_def removeWireNet_def
        split: option.splits if_splits prod.splits dest!: mergeNets_connectors)

lemma findJunctions_end_connectors:
  "findJunctions_end pow wire otherWire atLast s = Some s' \<Longrightarrow> s_connectors s' = s_connectors s"
  by (auto simp: findJunctions_end_def split: option.splits if_splits dest!: connectWire_connectors)

lemma findJunctions_inner_connectors:
  "findJunctions_inner pow wire otherWire s = Some s' \<Longrightarrow> s_connectors s' = s_connectors s"
  by (auto simp: findJunctions_inner_def split: option.splits if_splits
        dest!: findJunctions_end_connectors)

lemma findJunctions_connectors:
  assumes "findJunctions pow s = Some s'"
  shows "s_connectors s' = s_connectors s"
proof -
  have inner: "\<And>wire t t'. foldM (findJunctions_inner pow wire) (wires t) t = Some t' \<Longrightarrow>
                 s_connectors t = s_connectors s \<Longrightarrow> s_connectors t' = s_connectors s"
  proof -
    fix wire t t'
    assume r: "foldM (findJunctions_inner pow wire) (wires t) t = Some t'"
      and c: "s_connectors t = s_connectors s"
    show "s_connectors t' = s_connectors s"
      by (rule foldM_invariant [OF r, where P = "\<lambda>u. s_connectors u = s_connectors s"])
         (auto simp: c dest: findJunctions_inner_connectors)
  qed
  from assms have "foldM (\<lambda>wire s'. foldM (findJunctions_inner pow wire) (wires s') s') (wires s) s = Some s'"
    by (simp add: findJunctions_def)
  then show ?thesis
    by (rule foldM_invariant [where P = "\<lambda>u. s_connectors u = s_connectors s"])
       (auto intro: inner)
qed

text \<open>
  Claim C9, as amended. Connectors are unbound when the passes after loading start. A
  connector lies within one unit of a wire point when the test of the code holds for them:
  the length of the \<^verbatim>\<open>QVector2D\<close> between them, as Qt computes it, is below 1. After
  the pass that attaches wires to nodes, a connector that lies within one unit of some
  point of some wire of the scene is bound to a wire of the scene, at the first point of
  that wire that lies within one unit of the connector; when only one wire has such a
  point, the connector is bound to that wire. The junction pass that follows leaves the
  connectors as they are. This holds whatever Qt computes. Scenario S3 is the scene
  \<open>s3_scene\<close>: by \<open>s3_any_qt\<close> its connector ends bound to point 0 of the wire for
  all operations that give a vector from a point to itself a length below 1.
\<close>

theorem attachWiresToNodes_binds:
  assumes k: "k < length (s_connectors s)"
    and fresh: "c_wire (s_connectors s ! k) = None" "c_wirePointIndex (s_connectors s ! k) = -1"
    and nr: "w \<in> set (wires s)" "p \<in> set (wirePointsAbsolute (s_wires s w))"
            "near qt (s_connectors s ! k) p"
  shows "\<exists>w' i. w' \<in> set (wires s) \<and>
           bound_to_first_near qt (s_wires s) (s_connectors (attachWiresToNodes qt s) ! k) w' i \<and>
           c_scenePos (s_connectors (attachWiresToNodes qt s) ! k) = c_scenePos (s_connectors s ! k) \<and>
           ((\<forall>v \<in> set (wires s). v \<noteq> w \<longrightarrow>
               (\<forall>q \<in> set (wirePointsAbsolute (s_wires s v)). \<not> near qt (s_connectors s ! k) q))
             \<longrightarrow> w' = w) \<and>
           (\<forall>s''. from_container_passes qt pointIsOnWire s = Some s''
                   \<longrightarrow> s_connectors s'' ! k = s_connectors (attachWiresToNodes qt s) ! k)"
proof -
  let ?c = "s_connectors s ! k"
  let ?F = "\<lambda>wire. attachLoop qt (s_wires s) wire (wirePointsAbsolute (s_wires s wire))"
  have res: "s_connectors (attachWiresToNodes qt s) ! k = fold ?F (wires s) ?c"
    using k by (simp add: attachWiresToNodes_def fold_map_nth)
  have "\<exists>w \<in> set (wires s). \<exists>p \<in> set (wirePointsAbsolute (s_wires s w)). near qt ?c p"
    using nr by blast
  from fold_unbound [of ?c "wires s" "s_wires s" qt, OF fresh this] obtain w' i where
    r: "w' \<in> set (wires s)" "\<exists>p \<in> set (wirePointsAbsolute (s_wires s w')). near qt ?c p"
       "bound_to_first_near qt (s_wires s) (fold ?F (wires s) ?c) w' i"
    by blast
  have sp: "c_scenePos (fold ?F (wires s) ?c) = c_scenePos ?c"
    by (rule fold_attachLoop_scenePos)
  have uniq: "(\<forall>v \<in> set (wires s). v \<noteq> w \<longrightarrow>
               (\<forall>q \<in> set (wirePointsAbsolute (s_wires s v)). \<not> near qt ?c q)) \<longrightarrow> w' = w"
    using r(1,2) by blast
  have load: "\<forall>s''. from_container_passes qt pointIsOnWire s = Some s''
                   \<longrightarrow> s_connectors s'' ! k = s_connectors (attachWiresToNodes qt s) ! k"
    by (auto simp: from_container_passes_def dest: findJunctions_connectors)
  from r(1,3) sp uniq load show ?thesis
    unfolding res by blast
qed

lemma shared_end_any_qt:
  assumes "qt_length_less qt (qt_toVector2D qt (qt_minus qt (0, 0) (0, 0))) 1"
  shows "s_connectors (attachWiresToNodes qt shared_end)
           = [\<lparr>c_scenePos = (0, 0), c_wire = Some 1, c_wirePointIndex = 0\<rparr>]"
  using assms
  by (simp add: shared_end_def padd_def wirePointsAbsolute_def
        wire_of_def new_Connector_def wires_def emptyNet_def attachWiresToNodes_def
        attachWire_def count_def wirePointsRelative_def)

lemma s3_any_qt:
  assumes "qt_length_less qt (qt_toVector2D qt (qt_minus qt (0, 0) (0, 0))) 1"
  shows "map_option s_connectors (from_container_passes qt pointIsOnWire_spec s3_scene)
           = Some [\<lparr>c_scenePos = (0, 0), c_wire = Some 0, c_wirePointIndex = 0\<rparr>]"
  using assms
  by (simp add: s3_scene_def padd_def wirePointsAbsolute_def
        wire_of_def new_Connector_def wires_def emptyNet_def attachWiresToNodes_def
        attachWire_def count_def wirePointsRelative_def from_container_passes_def findJunctions_def
        findJunctions_inner_def)

text \<open>
  Claim C9 as stated fails where two wires end at the same connector: the connector holds
  one binding, that of the wire visited last, although it lies on point 0 of wire 0. The
  scene is evaluated with the exact operations; by \<open>shared_end_any_qt\<close> the result is the
  same for all operations that give a vector from a point to itself a length below 1.
\<close>

theorem load_binding_counterexample:
  "near exact_qt (s_connectors shared_end ! 0) (wirePointsAbsolute (s_wires shared_end 0) ! 0) \<and>
   0 \<in> set (wires shared_end) \<and>
   c_wire (s_connectors (attachWiresToNodes exact_qt shared_end) ! 0) = Some 1 \<and>
   \<not> (c_wire (s_connectors (attachWiresToNodes exact_qt shared_end) ! 0) = Some 0 \<and>
      c_wirePointIndex (s_connectors (attachWiresToNodes exact_qt shared_end) ! 0) = 0)"
  by (simp add: shared_end_def near_def exact_qt_def psub_def padd_def wirePointsAbsolute_def
        wire_of_def new_Connector_def wires_def emptyNet_def attachWiresToNodes_def
        attachWire_def count_def wirePointsRelative_def)

lemma s3_eval:
  "s_connectors (attachWiresToNodes exact_qt s3_scene) ! 0
     = \<lparr>c_scenePos = (0, 0), c_wire = Some 0, c_wirePointIndex = 0\<rparr>"
  by (simp add: s3_scene_def near_def exact_qt_def psub_def padd_def wirePointsAbsolute_def
        wire_of_def new_Connector_def wires_def emptyNet_def attachWiresToNodes_def
        attachWire_def count_def wirePointsRelative_def)

lemma s3_load:
  "map_option s_connectors (from_container_passes exact_qt pointIsOnWire_spec s3_scene)
     = Some [\<lparr>c_scenePos = (0, 0), c_wire = Some 0, c_wirePointIndex = 0\<rparr>]"
  by (simp add: s3_scene_def near_def exact_qt_def psub_def padd_def wirePointsAbsolute_def
        wire_of_def new_Connector_def wires_def emptyNet_def attachWiresToNodes_def
        attachWire_def count_def wirePointsRelative_def from_container_passes_def findJunctions_def
        findJunctions_inner_def)


theorem attachWiresToNodes_binds_witness:
  "0 < length (s_connectors s3_scene) \<and>
   c_wire (s_connectors s3_scene ! 0) = None \<and> c_wirePointIndex (s_connectors s3_scene ! 0) = -1 \<and>
   0 \<in> set (wires s3_scene) \<and>
   wirePointsAbsolute (s_wires s3_scene 0) ! 0 \<in> set (wirePointsAbsolute (s_wires s3_scene 0)) \<and>
   near exact_qt (s_connectors s3_scene ! 0) (wirePointsAbsolute (s_wires s3_scene 0) ! 0) \<and>
   bound_to_first_near exact_qt (s_wires s3_scene) (s_connectors (attachWiresToNodes exact_qt s3_scene) ! 0) 0 0 \<and>
   map_option s_connectors (from_container_passes exact_qt pointIsOnWire_spec s3_scene)
     = Some [\<lparr>c_scenePos = (0, 0), c_wire = Some 0, c_wirePointIndex = 0\<rparr>]"
proof -
  have k: "0 < length (s_connectors s3_scene)"
    by (simp add: s3_scene_def)
  have fresh: "c_wire (s_connectors s3_scene ! 0) = None"
    "c_wirePointIndex (s_connectors s3_scene ! 0) = -1"
    by (simp_all add: s3_scene_def new_Connector_def)
  have nr: "0 \<in> set (wires s3_scene)"
    "wirePointsAbsolute (s_wires s3_scene 0) ! 0 \<in> set (wirePointsAbsolute (s_wires s3_scene 0))"
    "near exact_qt (s_connectors s3_scene ! 0) (wirePointsAbsolute (s_wires s3_scene 0) ! 0)"
    by (simp_all add: s3_scene_def wires_def emptyNet_def wirePointsAbsolute_def wire_of_def
          near_def exact_qt_def psub_def padd_def new_Connector_def)
  have only: "\<forall>v \<in> set (wires s3_scene). v \<noteq> 0 \<longrightarrow>
               (\<forall>q \<in> set (wirePointsAbsolute (s_wires s3_scene v)).
                   \<not> near exact_qt (s_connectors s3_scene ! 0) q)"
    by (simp add: s3_scene_def wires_def emptyNet_def)
  from attachWiresToNodes_binds [OF k fresh nr, of pointIsOnWire_spec] only obtain i where
    "bound_to_first_near exact_qt (s_wires s3_scene) (s_connectors (attachWiresToNodes exact_qt s3_scene) ! 0) 0 i"
    by blast
  moreover from this have "i = 0"
    by (simp add: bound_to_first_near_def s3_eval)
  ultimately show ?thesis
    using k fresh nr s3_load by simp
qed

section \<open>Connectors when the user moved a wire point\<close>

lemma fold_split_connectors:
  "s_connectors (fold (\<lambda>wireToMove s'. if wireToMove \<in> set oldWires then s'
        else WireNet_removeWire (WireNet_addWire s' newNet wireToMove) net wireToMove) xs s)
     = s_connectors s"
  by (induction xs arbitrary: s) (simp_all add: WireNet_removeWire_def WireNet_addWire_def)

lemma disconnectWire_connectors:
  "disconnectWire s wire otherWire = Some s' \<Longrightarrow> s_connectors s' = s_connectors s"
  by (auto simp: disconnectWire_def Let_def new_WireNet_def addWireNet_def fold_split_connectors
        split: option.splits if_splits)

lemma detachWires_step_connectors:
  "detachWires_step pow rawWire index wire s = Some s' \<Longrightarrow> s_connectors s' = s_connectors s"
  by (auto simp: detachWires_step_def split: option.splits if_splits
        dest!: disconnectWire_connectors)

lemma detachWires_connectors:
  assumes "detachWires pow s rawWire index point = Some s'"
  shows "s_connectors s' = s_connectors s"
proof (cases "(index = 0 \<or> index = count (wirePointsAbsolute (s_wires s rawWire)) - 1) \<and> wp_isJunction point")
  case True
  with assms have "foldM (detachWires_step pow rawWire index) (wires s) s = Some s'"
    by (auto simp: detachWires_def)
  then show ?thesis
    by (rule foldM_invariant [where P = "\<lambda>u. s_connectors u = s_connectors s"])
       (auto dest: detachWires_step_connectors)
next
  case False
  with assms show ?thesis by (auto simp: detachWires_def split: if_splits)
qed

lemma attachPointToWire_step_connectors:
  "attachPointToWire_step pow rawWire index wire s = Some s' \<Longrightarrow> s_connectors s' = s_connectors s"
  by (auto simp: attachPointToWire_step_def split: option.splits if_splits
        dest!: connectWire_connectors)

lemma attachPointToWire_connectors:
  assumes "attachPointToWire pow s rawWire index = Some s'"
  shows "s_connectors s' = s_connectors s"
proof (cases "index = 0 \<or> index = count (wirePointsAbsolute (s_wires s rawWire)) - 1")
  case True
  with assms have "foldM (attachPointToWire_step pow rawWire index) (wires s) s = Some s'"
    by (simp add: attachPointToWire_def)
  then show ?thesis
    by (rule foldM_invariant [where P = "\<lambda>u. s_connectors u = s_connectors s"])
       (auto dest: attachPointToWire_step_connectors)
next
  case False
  with assms show ?thesis by (simp add: attachPointToWire_def)
qed

lemma wirePointMovedByUser_connectors_final:
  assumes "wirePointMovedByUser qt pow s rawWire index = Some s'"
  shows "wirePointMovedByUser_connectors qt s rawWire index = Some (s_connectors s')"
proof -
  from assms obtain point cs s3 where
    c: "wirePointMovedByUser_connectors qt s rawWire index = Some cs"
    and d: "detachWires pow (s\<lparr>s_connectors := cs\<rparr>) rawWire index point = Some s3"
    and a: "attachPointToWire pow s3 rawWire index = Some s'"
    by (auto simp: wirePointMovedByUser_def split: option.splits)
  from detachWires_connectors [OF d] attachPointToWire_connectors [OF a] c
  show ?thesis by simp
qed

lemma connector_passes_one:
  assumes idx: "0 \<le> index" "index < count (w_points (s_wires s W))"
    and first: "indexOf (w_points (s_wires s W)) (w_points (s_wires s W) ! nat index) = index"
  shows "wirePointMovedByUser_connectors qt s W index
           = Some (map (\<lambda>c. if at_new_location qt s W index c
                             then attachWire (s_wires s)
                                    (if c_wire c = Some W \<and> c_wirePointIndex c = index \<and>
                                        \<not> at_indexed_point qt s W index c
                                     then detachWire c else c) (Some W) index
                             else if c_wire c = Some W \<and> c_wirePointIndex c = index \<and>
                                     \<not> at_indexed_point qt s W index c
                             then detachWire c else c) (s_connectors s))"
  using idx first
  by (auto simp: wirePointMovedByUser_connectors_def at_index_def count_def wirePointsRelative_def
        wirePointsAbsolute_def at_new_location_def at_indexed_point_def attachToConnector_def
        detachFromConnector_def attachedWire_def detachWire_def split: option.splits)

text \<open>
  Claim C2, as amended. Positions are compared as the code compares them, after
  \<^verbatim>\<open>QPointF::toPoint\<close>, whatever Qt computes. When the user has moved point \<open>index\<close> of
  wire \<open>W\<close>, and no earlier point of \<open>W\<close> equals the moved point, the two connector
  passes return. A connector that is not at the new place of the point is detached when it
  was bound to \<open>(W, index)\<close> and is not at the indexed point of \<open>W\<close>, and is otherwise
  left as it is. A connector at the new place whose stored index lies between \<open>-1\<close> and
  the point count of \<open>W\<close> (an unbound connector stores \<open>-1\<close>) is bound to
  \<open>(W, index)\<close>, whether it was unbound or bound elsewhere before. The later passes of
  \<open>wirePointMovedByUser\<close> leave the connectors as they are.
\<close>

theorem connector_passes:
  assumes idx: "0 \<le> index" "index < count (w_points (s_wires s W))"
    and first: "indexOf (w_points (s_wires s W)) (w_points (s_wires s W) ! nat index) = index"
    and k: "k < length (s_connectors s)"
  shows "\<exists>cs. wirePointMovedByUser_connectors qt s W index = Some cs \<and>
           length cs = length (s_connectors s) \<and>
           (\<not> at_new_location qt s W index (s_connectors s ! k) \<and>
              c_wire (s_connectors s ! k) = Some W \<and> c_wirePointIndex (s_connectors s ! k) = index \<and>
              \<not> at_indexed_point qt s W index (s_connectors s ! k)
              \<longrightarrow> cs ! k = detachWire (s_connectors s ! k)) \<and>
           (\<not> at_new_location qt s W index (s_connectors s ! k) \<and>
              \<not> (c_wire (s_connectors s ! k) = Some W \<and> c_wirePointIndex (s_connectors s ! k) = index \<and>
                 \<not> at_indexed_point qt s W index (s_connectors s ! k))
              \<longrightarrow> cs ! k = s_connectors s ! k) \<and>
           (at_new_location qt s W index (s_connectors s ! k) \<and>
              -1 \<le> c_wirePointIndex (s_connectors s ! k) \<and>
              c_wirePointIndex (s_connectors s ! k) \<le> count (w_points (s_wires s W))
              \<longrightarrow> cs ! k = (s_connectors s ! k)\<lparr>c_wire := Some W, c_wirePointIndex := index\<rparr>) \<and>
           (\<forall>pointIsOnWire s'. wirePointMovedByUser qt pointIsOnWire s W index = Some s'
              \<longrightarrow> s_connectors s' = cs)"
proof -
  let ?stale = "\<lambda>c. c_wire c = Some W \<and> c_wirePointIndex c = index \<and>
                    \<not> at_indexed_point qt s W index c"
  let ?cs = "map (\<lambda>c. if at_new_location qt s W index c
                       then attachWire (s_wires s) (if ?stale c then detachWire c else c) (Some W) index
                       else if ?stale c then detachWire c else c) (s_connectors s)"
  have run: "wirePointMovedByUser_connectors qt s W index = Some ?cs"
    by (rule connector_passes_one [OF idx first])
  have len: "length ?cs = length (s_connectors s)" by simp
  have final: "\<forall>pointIsOnWire s'. wirePointMovedByUser qt pointIsOnWire s W index = Some s'
              \<longrightarrow> s_connectors s' = ?cs"
    using run by (auto dest!: wirePointMovedByUser_connectors_final)
  have att: "at_new_location qt s W index (s_connectors s ! k) \<and>
              -1 \<le> c_wirePointIndex (s_connectors s ! k) \<and>
              c_wirePointIndex (s_connectors s ! k) \<le> count (w_points (s_wires s W))
              \<longrightarrow> ?cs ! k = (s_connectors s ! k)\<lparr>c_wire := Some W, c_wirePointIndex := index\<rparr>"
    using k by (auto simp: attachWire_def wirePointsRelative_def detachWire_def count_def)
  from run len final att k show ?thesis
    by (intro exI [of _ ?cs]) simp
qed

lemma rebind_any_qt:
  assumes "qt_toPoint qt (qt_plus qt (0, 0) (100, 0)) = qt_toPoint qt (100, 0)"
  shows "wirePointMovedByUser_connectors qt rebind_scene 0 1
           = Some [\<lparr>c_scenePos = (100, 0), c_wire = Some 0, c_wirePointIndex = 1\<rparr>]"
  using assms
  by (simp add: rebind_scene_def wire_of_def wirePointMovedByUser_connectors_def at_index_def
        count_def wirePointsRelative_def wirePointsAbsolute_def attachToConnector_def
        detachFromConnector_def attachedWire_def attachWire_def padd_def)

text \<open>
  Claim C2 as stated fails in its last part: a connector bound to point 0 of wire 1 that
  lies at the new place of point 1 of wire 0 is rebound to wire 0. The scene is evaluated
  with the exact operations; by \<open>rebind_any_qt\<close> the result is the same for all
  operations that round the sum of (0,0) and (100,0) as they round (100,0).
\<close>

theorem connector_rebound_counterexample:
  "c_wire (s_connectors rebind_scene ! 0) = Some 1 \<and>
   c_wirePointIndex (s_connectors rebind_scene ! 0) = 0 \<and>
   wirePointMovedByUser_connectors exact_qt rebind_scene 0 1
     = Some [\<lparr>c_scenePos = (100, 0), c_wire = Some 0, c_wirePointIndex = 1\<rparr>]"
  by (simp add: rebind_scene_def wire_of_def wirePointMovedByUser_connectors_def at_index_def
        count_def wirePointsRelative_def wirePointsAbsolute_def attachToConnector_def
        detachFromConnector_def attachedWire_def attachWire_def padd_def exact_qt_def)

theorem connector_passes_witness:
  "(0::int) \<le> 1 \<and> 1 < count (w_points (s_wires rebind_scene 0)) \<and>
   indexOf (w_points (s_wires rebind_scene 0)) (w_points (s_wires rebind_scene 0) ! nat 1) = 1 \<and>
   0 < length (s_connectors rebind_scene) \<and>
   at_new_location exact_qt rebind_scene 0 1 (s_connectors rebind_scene ! 0) \<and>
   -1 \<le> c_wirePointIndex (s_connectors rebind_scene ! 0) \<and>
   c_wirePointIndex (s_connectors rebind_scene ! 0) \<le> count (w_points (s_wires rebind_scene 0)) \<and>
   (\<exists>cs. wirePointMovedByUser_connectors exact_qt rebind_scene 0 1 = Some cs \<and>
         cs ! 0 = \<lparr>c_scenePos = (100, 0), c_wire = Some 0, c_wirePointIndex = 1\<rparr>)"
proof -
  have idx: "(0::int) \<le> 1" "1 < count (w_points (s_wires rebind_scene 0))"
    by (simp_all add: rebind_scene_def wire_of_def count_def)
  have first: "indexOf (w_points (s_wires rebind_scene 0)) (w_points (s_wires rebind_scene 0) ! nat 1) = 1"
    by (simp add: rebind_scene_def wire_of_def)
  have k: "0 < length (s_connectors rebind_scene)"
    by (simp add: rebind_scene_def)
  have loc: "at_new_location exact_qt rebind_scene 0 1 (s_connectors rebind_scene ! 0)"
    "-1 \<le> c_wirePointIndex (s_connectors rebind_scene ! 0)"
    "c_wirePointIndex (s_connectors rebind_scene ! 0) \<le> count (w_points (s_wires rebind_scene 0))"
    by (simp_all add: rebind_scene_def wire_of_def at_new_location_def padd_def count_def
          exact_qt_def)
  have c: "(s_connectors rebind_scene ! 0)\<lparr>c_wire := Some 0, c_wirePointIndex := 1\<rparr>
             = \<lparr>c_scenePos = (100, 0), c_wire = Some 0, c_wirePointIndex = 1\<rparr>"
    by (simp add: rebind_scene_def)
  from connector_passes [OF idx first k, of exact_qt] loc c idx first k show ?thesis
    by auto
qed

section \<open>Finishing a wire that ends nowhere\<close>

lemma foldM_fixed:
  "\<forall>x \<in> set xs. f x a = Some a \<Longrightarrow> foldM f xs a = Some a"
  by (induction xs) simp_all

lemma wires_wires_upd [simp]: "wires (s\<lparr>s_wires := f\<rparr>) = wires s"
  by (simp add: wires_def)

lemma lastPoint_removeLastPoint:
  assumes "1 < length (w_points w)"
  shows "lastPoint (removeLastPoint w)
           = Some ((w_points w ! (length (w_points w) - 2))
                     \<lparr>wp_pos := padd (w_pos w) (wp_pos (w_points w ! (length (w_points w) - 2)))\<rparr>)"
proof -
  let ?n = "length (w_points w)"
  have len: "length (wirePointsAbsolute (removeLastPoint w)) = ?n - 1"
    by (simp add: wirePointsAbsolute_def removeLastPoint_def)
  have idx: "nat (int (?n - 1) - 1) = ?n - 2" by simp
  have inr: "?n - 2 < ?n - 1" using assms by simp
  have "wirePointsAbsolute (removeLastPoint w) ! (?n - 2)
          = (butlast (w_points w) ! (?n - 2))
              \<lparr>wp_pos := padd (w_pos w) (wp_pos (butlast (w_points w) ! (?n - 2)))\<rparr>"
    using inr by (simp add: wirePointsAbsolute_def removeLastPoint_def)
  moreover have "butlast (w_points w) ! (?n - 2) = w_points w ! (?n - 2)"
    using inr by (simp add: nth_butlast)
  ultimately show ?thesis
    using assms len idx by (simp add: lastPoint_def at_index_def count_def)
qed

text \<open>
  Claim C1, as amended. In wire mode, with a wire in progress of at least two points whose
  remaining last point equals no connection point (in the comparison of two
  \<^verbatim>\<open>QPointF\<close>, whatever Qt computes) and lies on no other wire, the double click
  reports \<open>WireFloating\<close>. The net list, the nets, the connectors and every
  other wire are as before, the wire stays the wire in progress and is not finished; its
  point list loses the provisional point and the rejected last point.
\<close>

theorem floating_wire_rejected:
  assumes mode: "s_mode s = WireMode" and nw: "s_newWire s = Some newWire"
    and cnt: "1 < count (wirePointsRelative (s_wires s newWire))"
    and noConnector: "\<forall>c \<in> set (s_connectors s).
                        \<not> qt_equal qt (c_scenePos c) (remaining_last s newWire)"
    and noWire: "\<forall>wire \<in> set (wires s). wire \<noteq> newWire \<longrightarrow>
                   \<not> pointIsOnWire (s_wires s wire) (remaining_last s newWire)"
  shows "\<exists>s'. mouseDoubleClickEvent qt pointIsOnWire simplify s = Some (s', Some WireFloating) \<and>
           s_nets s' = s_nets s \<and> s_netobjs s' = s_netobjs s \<and> s_nextNet s' = s_nextNet s \<and>
           s_connectors s' = s_connectors s \<and>
           s_mode s' = WireMode \<and> s_newWire s' = Some newWire \<and>
           (\<forall>w. w \<noteq> newWire \<longrightarrow> s_wires s' w = s_wires s w) \<and>
           s_wires s' newWire
             = (s_wires s newWire)\<lparr>w_points := butlast (butlast (w_points (s_wires s newWire)))\<rparr>"
proof -
  let ?w = "s_wires s newWire"
  let ?s1 = "s\<lparr>s_wires := (s_wires s)(newWire := removeLastPoint ?w)\<rparr>"
  let ?p = "(w_points ?w ! (length (w_points ?w) - 2))\<lparr>wp_pos := remaining_last s newWire\<rparr>"
  from cnt have len: "1 < length (w_points ?w)"
    by (simp add: count_def wirePointsRelative_def)
  have lp: "lastPoint (s_wires ?s1 newWire) = Some ?p"
    using lastPoint_removeLastPoint [OF len] by (simp add: remaining_last_def)
  have noCP: "\<not> list_ex (\<lambda>connectionPoint. qt_equal qt connectionPoint (wp_pos ?p))
                     (connectionPoints ?s1)"
    using noConnector by (auto simp: list_ex_iff connectionPoints_def)
  have step: "\<forall>wire \<in> set (wires ?s1).
                finishWire_step pointIsOnWire newWire wire (?s1, True) = Some (?s1, True)"
  proof
    fix wire assume "wire \<in> set (wires ?s1)"
    then have w: "wire \<in> set (wires s)" by simp
    show "finishWire_step pointIsOnWire newWire wire (?s1, True) = Some (?s1, True)"
    proof (cases "wire = newWire")
      case True
      then show ?thesis by (simp add: finishWire_step_def)
    next
      case False
      with noWire w have "\<not> pointIsOnWire (s_wires s wire) (remaining_last s newWire)" by blast
      with False lp show ?thesis by (simp add: finishWire_step_def)
    qed
  qed
  have loop: "foldM (finishWire_step pointIsOnWire newWire) (wires ?s1) (?s1, True) = Some (?s1, True)"
    using step by (rule foldM_fixed)
  let ?s' = "?s1\<lparr>s_wires := (s_wires ?s1)(newWire := removeLastPoint (s_wires ?s1 newWire))\<rparr>"
  have "mouseDoubleClickEvent qt pointIsOnWire simplify s = Some (?s', Some WireFloating)"
    using mode nw cnt lp noCP loop
    by (simp add: mouseDoubleClickEvent_def Let_def)
  moreover have "s_wires ?s' newWire = ?w\<lparr>w_points := butlast (butlast (w_points ?w))\<rparr>"
    by (simp add: removeLastPoint_def)
  ultimately show ?thesis
    using mode nw by (intro exI [of _ ?s']) simp
qed

lemma floating_any_qt:
  assumes "\<not> qt_equal qt (0, 50) (100, 0)"
  shows "mouseDoubleClickEvent qt pointIsOnWire_spec simplify floating_scene
           = Some (floating_after, Some WireFloating)"
  using assms
  by (simp add: mouseDoubleClickEvent_def floating_scene_def floating_after_def wire_of_def
        emptyNet_def count_def wirePointsRelative_def wirePointsAbsolute_def removeLastPoint_def
        lastPoint_def at_index_def connectionPoints_def wires_def finishWire_step_def Let_def
        new_Connector_def padd_def psub_def pointIsOnWire_spec_def point_on_segment_def dot_def
        distance_lt_1_def fun_eq_iff)

text \<open>
  Claim C1 as stated fails in ``no state change'': after the rejected double click the
  wire in progress has one point left of three. The scene is evaluated with the exact
  operations; by \<open>floating_any_qt\<close> the result is the same for every comparison that
  tells (0,50) from (100,0).
\<close>

theorem floating_wire_counterexample:
  "mouseDoubleClickEvent exact_qt pointIsOnWire_spec id floating_scene = Some (floating_after, Some WireFloating) \<and>
   w_points (s_wires floating_after 0) \<noteq> w_points (s_wires floating_scene 0) \<and>
   floating_after \<noteq> floating_scene"
proof -
  have run: "mouseDoubleClickEvent exact_qt pointIsOnWire_spec id floating_scene
               = Some (floating_after, Some WireFloating)"
    by (simp add: mouseDoubleClickEvent_def floating_scene_def floating_after_def wire_of_def
          emptyNet_def count_def wirePointsRelative_def wirePointsAbsolute_def removeLastPoint_def
          lastPoint_def at_index_def connectionPoints_def wires_def finishWire_step_def Let_def
          new_Connector_def padd_def psub_def pointIsOnWire_spec_def point_on_segment_def dot_def
          distance_lt_1_def exact_qt_def fun_eq_iff)
  have pts: "w_points (s_wires floating_after 0) \<noteq> w_points (s_wires floating_scene 0)"
    by (simp add: floating_scene_def floating_after_def wire_of_def)
  then have "floating_after \<noteq> floating_scene" by auto
  with run pts show ?thesis by simp
qed

theorem floating_wire_rejected_witness:
  "s_mode floating_scene = WireMode \<and> s_newWire floating_scene = Some 0 \<and>
   1 < count (wirePointsRelative (s_wires floating_scene 0)) \<and>
   remaining_last floating_scene 0 = (100, 0) \<and>
   (\<exists>s'. mouseDoubleClickEvent exact_qt pointIsOnWire_spec id floating_scene = Some (s', Some WireFloating) \<and>
         s_nets s' = [0, 1] \<and> s_newWire s' = Some 0 \<and>
         map wp_pos (w_points (s_wires s' 0)) = [(0, 0)])"
proof -
  have mode: "s_mode floating_scene = WireMode" and nw: "s_newWire floating_scene = Some 0"
    and cnt: "1 < count (wirePointsRelative (s_wires floating_scene 0))"
    and rl: "remaining_last floating_scene 0 = (100, 0)"
    by (simp_all add: floating_scene_def wire_of_def count_def wirePointsRelative_def
          remaining_last_def padd_def)
  have noConnector: "\<forall>c \<in> set (s_connectors floating_scene).
                       \<not> qt_equal exact_qt (c_scenePos c) (remaining_last floating_scene 0)"
    by (simp add: floating_scene_def new_Connector_def remaining_last_def wire_of_def padd_def
          exact_qt_def)
  have noWire: "\<forall>wire \<in> set (wires floating_scene). wire \<noteq> 0 \<longrightarrow>
                   \<not> pointIsOnWire_spec (s_wires floating_scene wire) (remaining_last floating_scene 0)"
    by (simp add: floating_scene_def wires_def emptyNet_def remaining_last_def wire_of_def
          wirePointsAbsolute_def padd_def psub_def pointIsOnWire_spec_def point_on_segment_def
          dot_def distance_lt_1_def Let_def)
  have before: "s_nets floating_scene = [0, 1]"
    "map wp_pos (butlast (butlast (w_points (s_wires floating_scene 0)))) = [(0, 0)]"
    by (simp_all add: floating_scene_def wire_of_def)
  from floating_wire_rejected [where s = floating_scene and newWire = 0 and qt = exact_qt
         and pointIsOnWire = pointIsOnWire_spec and simplify = id, OF mode nw cnt noConnector noWire]
    before mode nw cnt rl
  show ?thesis by auto
qed

section \<open>The direction of the connected-wires relation\<close>







section \<open>Removing a wire whose connections are recorded on both sides\<close>

lemma mutual_load: "findJunctions pointIsOnWire_spec mutual_loaded = Some mutual_net"
  by (simp add: mutual_loaded_def mutual_net_def junction_points_def wire_of_def emptyNet_def
        findJunctions_def findJunctions_inner_def findJunctions_end_def wires_def
        firstPoint_def lastPoint_def at_index_def count_def wirePointsAbsolute_def
        pointIsOnWire_spec_def point_on_segment_def dot_def distance_lt_1_def padd_def psub_def
        Let_def connectWire_def Wire_connectWire_def netFromWire_def WireNet_contains_def
        mergeNets_def setPointIsJunction_def fun_eq_iff)

lemma mutual_remove: "removeWire mutual_net 0 = Some mutual_after"
  by (simp add: mutual_net_def mutual_after_def junction_points_def wire_of_def emptyNet_def
        removeWire_def removeWire_disconnect_def removeWire_fromNet_def disconnectWire_def
        Wire_disconnectWire_def WireNet_contains_def WireNet_removeWire_def count_def
        removeWireNet_def wiresConnectedTo_def wiresConnectedTo_passes_def
        wiresConnectedTo_loop.simps newList_of_def directly_connected_def fun_eq_iff)

lemma mutual_after_facts:
  "s_nets mutual_after = [0] \<and> n_wires (s_netobjs mutual_after 0) = [1, 2] \<and>
   wiresConnectedTo mutual_after 1 = Some [1] \<and>
   \<not> directly_connected (s_wires mutual_after) 1 2"
  by (simp add: mutual_after_def junction_points_def wire_of_def emptyNet_def
        wiresConnectedTo_def wiresConnectedTo_passes_def
        wiresConnectedTo_loop.simps newList_of_def directly_connected_def)

lemma chain_remove: "map_option s_nets (removeWire chain_net 1) = Some [0, 2]"
  by (simp add: chain_net_def wire_of_def emptyNet_def
        removeWire_def removeWire_disconnect_def removeWire_fromNet_def disconnectWire_def
        Wire_disconnectWire_def WireNet_contains_def WireNet_removeWire_def count_def
        removeWireNet_def wiresConnectedTo_def wiresConnectedTo_passes_def
        wiresConnectedTo_loop.simps newList_of_def directly_connected_def fun_eq_iff
        new_WireNet_def addWireNet_def WireNet_addWire_def)

text \<open>
  Claim C4. After a wire is removed, the remaining wires of its net should be split into
  one net per connected component. The code is evaluated on the scene \<open>mutual_net\<close>,
  which the junction pass of \<open>from_container\<close> produces: wire 0 and wire 1 record each
  other, and so do wire 0 and wire 2. Removing wire 0 leaves the wires 1 and 2 in one net,
  although they are not connected: \<open>wiresConnectedTo\<close> for wire 1 returns wire 1 alone.
  (In \<open>chain_remove\<close>, where each connection is recorded on one side only, the net is
  split.)
\<close>

theorem removeWire_mutual_connection_not_split:
  "findJunctions pointIsOnWire_spec mutual_loaded = Some mutual_net \<and>
   removeWire mutual_net 0 = Some mutual_after \<and>
   s_nets mutual_after = [0] \<and> n_wires (s_netobjs mutual_after 0) = [1, 2] \<and>
   wiresConnectedTo mutual_after 1 = Some [1] \<and>
   \<not> directly_connected (s_wires mutual_after) 1 2"
  using mutual_load mutual_remove mutual_after_facts by simp

section \<open>wiresConnectedTo: a path through a wire outside the net\<close>

text \<open>
  Claim C10 as stated fails where the symmetric closure leads through a wire outside the
  net. In the scene \<open>mutual_after\<close>, which \<open>removeWire\<close> produces, the wires 1 and 2
  are the wires of net 0; the removed wire 0 still records both, so wire 2 is reachable
  from wire 1 in the symmetric closure of the connected-wires relation, through wire 0.
  \<open>wiresConnectedTo\<close> for wire 1 returns wire 1 alone.
\<close>

theorem wiresConnectedTo_outside_net_counterexample:
  "findJunctions pointIsOnWire_spec mutual_loaded = Some mutual_net \<and>
   removeWire mutual_net 0 = Some mutual_after \<and>
   w_net (s_wires mutual_after 1) = Some 0 \<and>
   n_wires (s_netobjs mutual_after 0) = [1, 2] \<and>
   1 \<in> set (w_connectedWires (s_wires mutual_after 0)) \<and>
   2 \<in> set (w_connectedWires (s_wires mutual_after 0)) \<and>
   (1, 2) \<in> (symmetric_link (s_wires mutual_after))\<^sup>* \<and>
   wiresConnectedTo mutual_after 1 = Some [1]"
proof -
  have rec: "1 \<in> set (w_connectedWires (s_wires mutual_after 0))"
    "2 \<in> set (w_connectedWires (s_wires mutual_after 0))"
    "w_net (s_wires mutual_after 1) = Some 0"
    by (simp_all add: mutual_after_def)
  from rec(1) have "(1, 0) \<in> symmetric_link (s_wires mutual_after)"
    by (simp add: symmetric_link_def connected_wires_rel_def)
  moreover from rec(2) have "(0, 2) \<in> symmetric_link (s_wires mutual_after)"
    by (simp add: symmetric_link_def connected_wires_rel_def)
  ultimately have "(1, 2) \<in> (symmetric_link (s_wires mutual_after))\<^sup>*"
    by (blast intro: rtrancl_into_rtrancl r_into_rtrancl)
  with rec mutual_load mutual_remove mutual_after_facts show ?thesis by simp
qed

section \<open>Moving a junction point that has a duplicate\<close>

lemma foldM_prefix_invariant:
  assumes "foldM f xs s = Some s'" and "P ys s"
    and "\<And>zs x t t'. P zs t \<Longrightarrow> f x t = Some t' \<Longrightarrow> P (zs @ [x]) t'"
  shows "P (ys @ xs) s'"
  using assms(1,2)
proof (induction xs arbitrary: s ys)
  case Nil
  then show ?case by simp
next
  case (Cons x xs)
  from Cons.prems(1) obtain t where t: "f x s = Some t" "foldM f xs t = Some s'"
    by (auto split: option.splits)
  from assms(3) [OF Cons.prems(2) t(1)] have "P (ys @ [x]) t" .
  from Cons.IH [OF t(2) this] show ?case by simp
qed

lemma shouldDisconnect_iff:
  "shouldDisconnect pointIsOnWire wire rawWire index js
     \<longleftrightarrow> \<not> (\<exists>p \<in> set js. indexOf (wirePointsAbsolute rawWire) p \<noteq> index \<and>
                           pointIsOnWire wire (wp_pos p))"
  by (induction js) auto

lemma indexOf_nth:
  "j < length xs \<Longrightarrow>
   \<exists>k \<le> j. indexOf xs (xs ! j) = int k \<and> xs ! k = xs ! j"
proof (induction xs arbitrary: j)
  case Nil
  then show ?case by simp
next
  case (Cons x xs)
  show ?case
  proof (cases "x = (x # xs) ! j")
    case True
    then show ?thesis by (intro exI [of _ 0]) simp
  next
    case False
    then obtain j' where j: "j = Suc j'" by (cases j) auto
    with Cons.prems have "j' < length xs" by simp
    from Cons.IH [OF this] obtain k where
      k: "k \<le> j'" "indexOf xs (xs ! j') = int k" "xs ! k = xs ! j'" by blast
    with False j show ?thesis
      by (intro exI [of _ "Suc k"]) (simp add: Let_def)
  qed
qed


lemma padd_left_cancel: "padd a b = padd a c \<longleftrightarrow> b = c"
  by (auto simp: padd_def prod_eq_iff)

lemma indexOf_abs_unique:
  assumes i: "i < length (w_points rw)"
    and uniq: "\<forall>j < length (w_points rw). j \<noteq> i \<longrightarrow> wp_pos (w_points rw ! j) \<noteq> wp_pos (w_points rw ! i)"
    and j: "j < length (w_points rw)"
  shows "indexOf (wirePointsAbsolute rw) (wirePointsAbsolute rw ! j) = int i \<longleftrightarrow> j = i"
proof -
  let ?A = "wirePointsAbsolute rw"
  have len: "length ?A = length (w_points rw)" by (simp add: wirePointsAbsolute_def)
  have pos: "\<And>a b. a < length (w_points rw) \<Longrightarrow> b < length (w_points rw) \<Longrightarrow> ?A ! a = ?A ! b \<Longrightarrow>
               wp_pos (w_points rw ! a) = wp_pos (w_points rw ! b)"
  proof -
    fix a b assume a: "a < length (w_points rw)" and b: "b < length (w_points rw)" and e: "?A ! a = ?A ! b"
    from e have "wp_pos (?A ! a) = wp_pos (?A ! b)" by simp
    with a b show "wp_pos (w_points rw ! a) = wp_pos (w_points rw ! b)"
      by (simp add: wirePointsAbsolute_def padd_left_cancel)
  qed
  from j len have "j < length ?A" by simp
  from indexOf_nth [OF this] obtain k where
    k: "k \<le> j" "indexOf ?A (?A ! j) = int k" "?A ! k = ?A ! j" by blast
  from k(1) j have kl: "k < length (w_points rw)" by simp
  show ?thesis
  proof
    assume "indexOf ?A (?A ! j) = int i"
    with k(2) have "k = i" by simp
    with k(3) pos [OF i j] have "wp_pos (w_points rw ! i) = wp_pos (w_points rw ! j)" by simp
    with uniq j show "j = i" by metis
  next
    assume ji: "j = i"
    from pos [OF kl j k(3)] ji have "wp_pos (w_points rw ! k) = wp_pos (w_points rw ! i)" by simp
    with uniq kl have "k = i" by metis
    with k(2) show "indexOf ?A (?A ! j) = int i" by simp
  qed
qed

lemma shouldDisconnect_unique:
  assumes idx: "0 \<le> index" "index < count (w_points rw)"
    and uniq: "\<forall>j < length (w_points rw). j \<noteq> nat index \<longrightarrow>
                 wp_pos (w_points rw ! j) \<noteq> wp_pos (w_points rw ! nat index)"
  shows "shouldDisconnect pointIsOnWire wx rw index (junctions rw)
     \<longleftrightarrow> \<not> (\<exists>j < length (w_points rw). j \<noteq> nat index \<and> wp_isJunction (w_points rw ! j) \<and>
               pointIsOnWire wx (padd (w_pos rw) (wp_pos (w_points rw ! j))))"
proof -
  let ?A = "wirePointsAbsolute rw"
  have len: "length ?A = length (w_points rw)" by (simp add: wirePointsAbsolute_def)
  from idx have i: "nat index < length (w_points rw)" and ii: "int (nat index) = index"
    by (simp_all add: count_def)
  have key: "\<And>j. j < length (w_points rw) \<Longrightarrow> (indexOf ?A (?A ! j) \<noteq> index) = (j \<noteq> nat index)"
    using indexOf_abs_unique [OF i uniq] ii by simp
  have nthA: "\<And>j. j < length (w_points rw) \<Longrightarrow>
      wp_isJunction (?A ! j) = wp_isJunction (w_points rw ! j) \<and>
      wp_pos (?A ! j) = padd (w_pos rw) (wp_pos (w_points rw ! j))"
    by (simp add: wirePointsAbsolute_def)
  have "(\<exists>p \<in> set (junctions rw). indexOf ?A p \<noteq> index \<and> pointIsOnWire wx (wp_pos p))
      \<longleftrightarrow> (\<exists>j < length (w_points rw). j \<noteq> nat index \<and> wp_isJunction (w_points rw ! j) \<and>
               pointIsOnWire wx (padd (w_pos rw) (wp_pos (w_points rw ! j))))"
    (is "?L \<longleftrightarrow> ?R")
  proof
    assume ?L
    then obtain p where p: "p \<in> set ?A" "wp_isJunction p" "indexOf ?A p \<noteq> index"
      "pointIsOnWire wx (wp_pos p)"
      by (auto simp: junctions_def)
    from p(1) obtain j where j: "j < length ?A" "?A ! j = p"
      by (auto simp: in_set_conv_nth)
    with len have jl: "j < length (w_points rw)" by simp
    from p j jl key [OF jl] nthA [OF jl] show ?R
      by (intro exI [of _ j]) auto
  next
    assume ?R
    then obtain j where j: "j < length (w_points rw)" "j \<noteq> nat index"
      "wp_isJunction (w_points rw ! j)"
      "pointIsOnWire wx (padd (w_pos rw) (wp_pos (w_points rw ! j)))"
      by blast
    from j(1) len have "?A ! j \<in> set ?A" by simp
    with j key [OF j(1)] nthA [OF j(1)] show ?L
      by (intro bexI [of _ "?A ! j"]) (auto simp: junctions_def)
  qed
  then show ?thesis by (simp add: shouldDisconnect_iff)
qed

lemma fold_split_wires_fields:
  "w_pos (s_wires (fold (\<lambda>wireToMove s'. if wireToMove \<in> set oldWires then s'
        else WireNet_removeWire (WireNet_addWire s' newNet wireToMove) net wireToMove) xs s) y)
     = w_pos (s_wires s y) \<and>
   w_points (s_wires (fold (\<lambda>wireToMove s'. if wireToMove \<in> set oldWires then s'
        else WireNet_removeWire (WireNet_addWire s' newNet wireToMove) net wireToMove) xs s) y)
     = w_points (s_wires s y) \<and>
   w_connectedWires (s_wires (fold (\<lambda>wireToMove s'. if wireToMove \<in> set oldWires then s'
        else WireNet_removeWire (WireNet_addWire s' newNet wireToMove) net wireToMove) xs s) y)
     = w_connectedWires (s_wires s y)"
  by (induction xs arbitrary: s) (simp_all add: WireNet_removeWire_def WireNet_addWire_def)

lemma disconnectWire_wires:
  assumes "disconnectWire s wire otherWire = Some s'"
  shows "w_pos (s_wires s' y) = w_pos (s_wires s y) \<and>
         w_points (s_wires s' y) = w_points (s_wires s y) \<and>
         w_connectedWires (s_wires s' y)
           = (if y = otherWire then removeAll wire (w_connectedWires (s_wires s otherWire))
              else w_connectedWires (s_wires s y))"
  using assms
  by (auto simp: disconnectWire_def Let_def new_WireNet_def addWireNet_def fold_split_wires_fields
        Wire_disconnectWire_def split: option.splits if_splits)


lemma detach_inv_step:
  assumes idx: "0 \<le> index" "index < count (w_points (s_wires s W))"
    and uniq: "\<forall>j < length (w_points (s_wires s W)). j \<noteq> nat index \<longrightarrow>
                 wp_pos (w_points (s_wires s W) ! j) \<noteq> wp_pos (w_points (s_wires s W) ! nat index)"
    and geom: "\<forall>w w'. w_pos w = w_pos w' \<and> w_points w = w_points w' \<longrightarrow> pointIsOnWire w = pointIsOnWire w'"
    and inv: "detach_inv pointIsOnWire s W index zs t"
    and step: "detachWires_step pointIsOnWire W index X t = Some t'"
  shows "detach_inv pointIsOnWire s W index (zs @ [X]) t'"
proof -
  let ?pts = "w_points (s_wires s W)"
  let ?i = "nat index"
  let ?pts' = "w_points (setPointIsJunction (s_wires s W) index False)"
  let ?K = "other_junction_on pointIsOnWire s W index"
  from idx have il: "?i < length ?pts" by (simp add: count_def)
  have pts': "?pts' = ?pts[?i := (?pts ! ?i)\<lparr>wp_isJunction := False\<rparr>]"
    using idx by (simp add: setPointIsJunction_def)
  from inv have I1: "\<And>y. w_pos (s_wires t y) = w_pos (s_wires s y)"
    and I2: "\<And>y. y \<noteq> W \<Longrightarrow> w_points (s_wires t y) = w_points (s_wires s y)"
    and I3: "w_points (s_wires t W) = ?pts \<or> w_points (s_wires t W) = ?pts'"
    and I4: "\<And>Y. Y \<noteq> W \<Longrightarrow> w_connectedWires (s_wires t Y)
           = (if Y \<in> set zs \<and> W \<in> set (w_connectedWires (s_wires s Y)) \<and> \<not> ?K Y
              then removeAll W (w_connectedWires (s_wires s Y))
              else w_connectedWires (s_wires s Y))"
    and I5: "(\<exists>Y \<in> set zs. Y \<noteq> W \<and> W \<in> set (w_connectedWires (s_wires s Y)))
               \<Longrightarrow> w_points (s_wires t W) = ?pts'"
    by (simp_all add: detach_inv_def)
  show ?thesis
  proof (cases "X \<noteq> W \<and> W \<in> set (w_connectedWires (s_wires t X))")
    case False
    with step have same: "t' = t"
      by (auto simp: detachWires_step_def split: if_splits)
    have c4: "\<And>Y. Y \<noteq> W \<Longrightarrow> w_connectedWires (s_wires t Y)
           = (if Y \<in> set (zs @ [X]) \<and> W \<in> set (w_connectedWires (s_wires s Y)) \<and> \<not> ?K Y
              then removeAll W (w_connectedWires (s_wires s Y))
              else w_connectedWires (s_wires s Y))"
    proof -
      fix Y assume Y: "Y \<noteq> W"
      show "w_connectedWires (s_wires t Y)
           = (if Y \<in> set (zs @ [X]) \<and> W \<in> set (w_connectedWires (s_wires s Y)) \<and> \<not> ?K Y
              then removeAll W (w_connectedWires (s_wires s Y))
              else w_connectedWires (s_wires s Y))"
      proof (cases "Y = X")
        case True
        with Y False have n: "W \<notin> set (w_connectedWires (s_wires t Y))" by simp
        with I4 [OF Y] show ?thesis by (auto split: if_splits)
      next
        case False
        with I4 [OF Y] show ?thesis by simp
      qed
    qed
    have c5: "(\<exists>Y \<in> set (zs @ [X]). Y \<noteq> W \<and> W \<in> set (w_connectedWires (s_wires s Y)))
               \<Longrightarrow> w_points (s_wires t W) = ?pts'"
    proof -
      assume "\<exists>Y \<in> set (zs @ [X]). Y \<noteq> W \<and> W \<in> set (w_connectedWires (s_wires s Y))"
      then obtain Y where Y: "Y \<in> set (zs @ [X])" "Y \<noteq> W" "W \<in> set (w_connectedWires (s_wires s Y))"
        by blast
      show "w_points (s_wires t W) = ?pts'"
      proof (cases "Y \<in> set zs")
        case True
        with Y I5 show ?thesis by blast
      next
        case False
        with Y(1) have yx: "Y = X" by simp
        with \<open>\<not> (X \<noteq> W \<and> W \<in> set (w_connectedWires (s_wires t X)))\<close> Y(2)
        have "W \<notin> set (w_connectedWires (s_wires t Y))" by simp
        with I4 [OF Y(2)] Y(3) have "Y \<in> set zs" by (auto split: if_splits)
        with False show ?thesis by simp
      qed
    qed
    from I1 I2 I3 c4 c5 show ?thesis
      unfolding same detach_inv_def by blast
  next
    case True
    then have xw: "X \<noteq> W" and inT: "W \<in> set (w_connectedWires (s_wires t X))" by simp_all
    from I4 [OF xw] inT have ct: "w_connectedWires (s_wires t X) = w_connectedWires (s_wires s X)"
      and inS: "W \<in> set (w_connectedWires (s_wires s X))"
      by (auto split: if_splits)
    let ?tw = "s_wires t W"
    have len: "length (w_points ?tw) = length ?pts"
      using I3 pts' by auto
    have nth_other: "\<And>j. j \<noteq> ?i \<Longrightarrow> w_points ?tw ! j = ?pts ! j"
      using I3 pts' by auto
    have nth_pos: "\<And>j. j < length ?pts \<Longrightarrow> wp_pos (w_points ?tw ! j) = wp_pos (?pts ! j)"
    proof -
      fix j assume j: "j < length ?pts"
      from I3 show "wp_pos (w_points ?tw ! j) = wp_pos (?pts ! j)"
      proof
        assume "w_points ?tw = ?pts" then show ?thesis by simp
      next
        assume "w_points ?tw = ?pts'"
        with pts' j show ?thesis by (cases "j = ?i") simp_all
      qed
    qed
    have idx_t: "0 \<le> index" "index < count (w_points ?tw)"
      using idx len by (simp_all add: count_def)
    have uniq_t: "\<forall>j < length (w_points ?tw). j \<noteq> ?i \<longrightarrow>
                 wp_pos (w_points ?tw ! j) \<noteq> wp_pos (w_points ?tw ! ?i)"
      using uniq len nth_pos il by simp
    have pow_eq: "pointIsOnWire (s_wires t X) = pointIsOnWire (s_wires s X)"
      using geom I1 [of X] I2 [OF xw] by blast
    have sd: "shouldDisconnect pointIsOnWire (s_wires t X) ?tw index (junctions ?tw) \<longleftrightarrow> \<not> ?K X"
    proof -
      have "(\<exists>j < length (w_points ?tw). j \<noteq> ?i \<and> wp_isJunction (w_points ?tw ! j) \<and>
               pointIsOnWire (s_wires t X) (padd (w_pos ?tw) (wp_pos (w_points ?tw ! j))))
            \<longleftrightarrow> ?K X"
        unfolding other_junction_on_def len pow_eq I1
        using nth_other by (metis (no_types, lifting))
      with shouldDisconnect_unique [OF idx_t uniq_t, of pointIsOnWire "s_wires t X"]
      show ?thesis by simp
    qed
    obtain t1 where t1: "(if \<not> ?K X then disconnectWire t W X else Some t) = Some t1"
      and t': "t' = t1\<lparr>s_wires := (s_wires t1)(W := setPointIsJunction (s_wires t1 W) index False)\<rparr>"
      using step True sd by (auto simp: detachWires_step_def split: option.splits if_splits)
    have w1: "\<And>y. w_pos (s_wires t1 y) = w_pos (s_wires t y) \<and>
                 w_points (s_wires t1 y) = w_points (s_wires t y) \<and>
                 w_connectedWires (s_wires t1 y)
                   = (if y = X \<and> \<not> ?K X then removeAll W (w_connectedWires (s_wires t X))
                      else w_connectedWires (s_wires t y))"
    proof -
      fix y
      show "w_pos (s_wires t1 y) = w_pos (s_wires t y) \<and>
                 w_points (s_wires t1 y) = w_points (s_wires t y) \<and>
                 w_connectedWires (s_wires t1 y)
                   = (if y = X \<and> \<not> ?K X then removeAll W (w_connectedWires (s_wires t X))
                      else w_connectedWires (s_wires t y))"
      proof (cases "?K X")
        case True
        with t1 show ?thesis by simp
      next
        case False
        with t1 have "disconnectWire t W X = Some t1" by simp
        from disconnectWire_wires [OF this, of y] False show ?thesis by simp
      qed
    qed
    have d1: "\<And>y. w_pos (s_wires t' y) = w_pos (s_wires s y)"
      using w1 I1 by (simp add: t' setPointIsJunction_def)
    have d2: "\<And>y. y \<noteq> W \<Longrightarrow> w_points (s_wires t' y) = w_points (s_wires s y)"
      using w1 I2 by (simp add: t')
    have d3: "w_points (s_wires t' W) = ?pts'"
    proof -
      have "w_points (s_wires t' W) = (w_points ?tw)[?i := (w_points ?tw ! ?i)\<lparr>wp_isJunction := False\<rparr>]"
        using w1 [of W] idx_t by (simp add: t' setPointIsJunction_def)
      with I3 pts' il show ?thesis by auto
    qed
    have d4: "\<And>Y. Y \<noteq> W \<Longrightarrow> w_connectedWires (s_wires t' Y)
           = (if Y \<in> set (zs @ [X]) \<and> W \<in> set (w_connectedWires (s_wires s Y)) \<and> \<not> ?K Y
              then removeAll W (w_connectedWires (s_wires s Y))
              else w_connectedWires (s_wires s Y))"
    proof -
      fix Y assume Y: "Y \<noteq> W"
      have e: "w_connectedWires (s_wires t' Y)
                 = (if Y = X \<and> \<not> ?K X then removeAll W (w_connectedWires (s_wires t X))
                    else w_connectedWires (s_wires t Y))"
        using w1 [of Y] Y by (simp add: t')
      show "w_connectedWires (s_wires t' Y)
           = (if Y \<in> set (zs @ [X]) \<and> W \<in> set (w_connectedWires (s_wires s Y)) \<and> \<not> ?K Y
              then removeAll W (w_connectedWires (s_wires s Y))
              else w_connectedWires (s_wires s Y))"
      proof (cases "Y = X")
        case True
        with e ct inS show ?thesis by simp
      next
        case False
        with e I4 [OF Y] show ?thesis by simp
      qed
    qed
    from d1 d2 d3 d4 show ?thesis
      unfolding detach_inv_def by simp
  qed
qed


lemma detach_inv_start: "detach_inv pointIsOnWire s W index [] s"
  by (simp add: detach_inv_def)

text \<open>
  Where no other point of the moved wire shares the position of the moved end point, the
  third pass keeps the connection to a wire exactly when another junction point of the
  moved wire lies on that wire, and it clears the junction flag of the moved point.
\<close>

lemma detachWires_keeps_iff:
  assumes idx: "0 \<le> index" "index < count (w_points (s_wires s W))"
    and endpoint: "index = 0 \<or> index = count (w_points (s_wires s W)) - 1"
    and junction: "wp_isJunction (w_points (s_wires s W) ! nat index)"
    and uniq: "\<forall>j < length (w_points (s_wires s W)). j \<noteq> nat index \<longrightarrow>
                 wp_pos (w_points (s_wires s W) ! j) \<noteq> wp_pos (w_points (s_wires s W) ! nat index)"
    and geom: "\<forall>w w'. w_pos w = w_pos w' \<and> w_points w = w_points w' \<longrightarrow> pointIsOnWire w = pointIsOnWire w'"
    and run: "detachWires pointIsOnWire s W index (w_points (s_wires s W) ! nat index) = Some s'"
    and X: "X \<in> set (wires s)" "X \<noteq> W" "W \<in> set (w_connectedWires (s_wires s X))"
  shows "(W \<in> set (w_connectedWires (s_wires s' X))
            \<longleftrightarrow> other_junction_on pointIsOnWire s W index X) \<and>
         \<not> wp_isJunction (w_points (s_wires s' W) ! nat index)"
proof -
  have "count (wirePointsAbsolute (s_wires s W)) = count (w_points (s_wires s W))"
    by (simp add: count_def wirePointsAbsolute_def)
  with run endpoint junction
  have "foldM (detachWires_step pointIsOnWire W index) (wires s) s = Some s'"
    by (simp add: detachWires_def)
  from foldM_prefix_invariant [where P = "detach_inv pointIsOnWire s W index" and ys = "[]",
         OF this detach_inv_start detach_inv_step [OF idx uniq geom]]
  have inv: "detach_inv pointIsOnWire s W index (wires s) s'" by simp
  from inv X have c: "w_connectedWires (s_wires s' X)
      = (if \<not> other_junction_on pointIsOnWire s W index X
         then removeAll W (w_connectedWires (s_wires s X)) else w_connectedWires (s_wires s X))"
    by (simp add: detach_inv_def)
  from inv X have "w_points (s_wires s' W) = w_points (setPointIsJunction (s_wires s W) index False)"
    unfolding detach_inv_def by blast
  with idx have f: "\<not> wp_isJunction (w_points (s_wires s' W) ! nat index)"
    by (simp add: setPointIsJunction_def count_def)
  from c X(3) f show ?thesis by auto
qed

lemma loop_load: "findJunctions pointIsOnWire_spec loop_loaded = Some loop_scene"
  by (simp add: loop_loaded_def loop_scene_def junction_points_def wire_of_def emptyNet_def
        findJunctions_def findJunctions_inner_def findJunctions_end_def wires_def
        firstPoint_def lastPoint_def at_index_def count_def wirePointsAbsolute_def
        pointIsOnWire_spec_def point_on_segment_def dot_def distance_lt_1_def padd_def psub_def
        Let_def connectWire_def Wire_connectWire_def netFromWire_def WireNet_contains_def
        mergeNets_def setPointIsJunction_def fun_eq_iff)

lemma loop_pre:
  "wp_isJunction (w_points (s_wires loop_scene 1) ! 0) \<and>
   wp_isJunction (w_points (s_wires loop_scene 1) ! 3) \<and>
   pointIsOnWire_spec (s_wires loop_scene 0) (wp_pos (wirePointsAbsolute (s_wires loop_scene 1) ! 3)) \<and>
   1 \<in> set (w_connectedWires (s_wires loop_scene 0))"
  by (simp add: loop_scene_def junction_points_def wire_of_def wirePointsAbsolute_def
        pointIsOnWire_spec_def point_on_segment_def dot_def distance_lt_1_def padd_def psub_def Let_def)

lemma loop_pass:
  "detachWires pointIsOnWire_spec loop_scene 1 0 (w_points (s_wires loop_scene 1) ! 0) = Some loop_after"
  by (simp add: loop_scene_def loop_after_def junction_points_def wire_of_def emptyNet_def
        detachWires_def detachWires_step_def wires_def count_def wirePointsAbsolute_def junctions_def
        padd_def disconnectWire_def Wire_disconnectWire_def wiresConnectedTo_def
        wiresConnectedTo_passes_def wiresConnectedTo_loop.simps newList_of_def
        directly_connected_def new_WireNet_def addWireNet_def WireNet_addWire_def
        WireNet_removeWire_def setPointIsJunction_def Let_def fun_eq_iff)

lemma loop_run:
  "wirePointMovedByUser qt pointIsOnWire_spec loop_scene 1 0 = Some loop_after"
  by (simp add: loop_scene_def loop_after_def junction_points_def wire_of_def emptyNet_def
        wirePointMovedByUser_def wirePointMovedByUser_connectors_def at_index_def
        wirePointsRelative_def attachPointToWire_def attachPointToWire_step_def
        pointIsOnWire_spec_def point_on_segment_def dot_def distance_lt_1_def psub_def
        detachWires_def detachWires_step_def wires_def count_def wirePointsAbsolute_def junctions_def
        padd_def disconnectWire_def Wire_disconnectWire_def wiresConnectedTo_def
        wiresConnectedTo_passes_def wiresConnectedTo_loop.simps newList_of_def
        directly_connected_def new_WireNet_def addWireNet_def WireNet_addWire_def
        WireNet_removeWire_def setPointIsJunction_def Let_def fun_eq_iff)

lemma loop_post:
  "1 \<notin> set (w_connectedWires (s_wires loop_after 0))"
  by (simp add: loop_after_def wire_of_def)

text \<open>
  Claim C3. When the user moves an end point that carried the junction flag, the
  connection to a wire should be kept if another junction point of the moved wire still
  lies on that wire. The code is evaluated on the scene \<open>loop_scene\<close>, which the
  junction pass of \<open>from_container\<close> produces: the points 0 and 3 of wire 1 are equal
  junction points on wire 0, and wire 0 records wire 1. For point 0 of wire 1 the third
  pass, and with it \<open>wirePointMovedByUser\<close>, ends with wire 0 no longer recording wire 1,
  although the junction point 3 of wire 1 lies on wire 0.
\<close>

theorem moved_junction_duplicate_point_disconnects:
  "findJunctions pointIsOnWire_spec loop_loaded = Some loop_scene \<and>
   wp_isJunction (w_points (s_wires loop_scene 1) ! 0) \<and>
   wp_isJunction (w_points (s_wires loop_scene 1) ! 3) \<and>
   pointIsOnWire_spec (s_wires loop_scene 0) (wp_pos (wirePointsAbsolute (s_wires loop_scene 1) ! 3)) \<and>
   1 \<in> set (w_connectedWires (s_wires loop_scene 0)) \<and>
   detachWires pointIsOnWire_spec loop_scene 1 0 (w_points (s_wires loop_scene 1) ! 0) = Some loop_after \<and>
   wirePointMovedByUser qt pointIsOnWire_spec loop_scene 1 0 = Some loop_after \<and>
   1 \<notin> set (w_connectedWires (s_wires loop_after 0))"
  using loop_load loop_pre loop_pass loop_run loop_post by simp

end
